theory Spec2Isabelle
  imports Complex_Main "HOL-Library.Word" "HOL-Library.Multiset"
begin

unbundle bit_operations_syntax

section \<open>Data model\<close>

text \<open>
  Paths are strings, file contents are byte lists.  A Python exception is a value with
  its class name and its message (\<open>str(e)\<close>); a function that may raise returns
  \<open>exn + 'a\<close>, with \<open>Inl\<close> the raised exception.
\<close>

type_synonym path = string
type_synonym bytes = "8 word list"

datatype exn = PyErr (err_class: string) (err_msg: string)

text \<open>
  A decoded image: numpy's \<open>ndarray\<close> with its shape and its elements in row-major
  order.  Samples are integers (the integer sample formats of TIFF).
\<close>

record ndarray =
  shape :: "nat list"
  data :: "int list"

definition wf_array :: "ndarray \<Rightarrow> bool" where
  "wf_array a = (length (data a) = prod_list (shape a))"

text \<open>
  The ImageJ metadata of a file: a Python dictionary from field names to counts, kept as
  an association list (\<open>map_of\<close> is \<open>dict.get\<close>).
\<close>

type_synonym metadata = "(string \<times> int) list"

text \<open>
  The filesystem: the regular files by path, the paths whose removal the operating
  system refuses (permissions, locks), and the working directory of the process.
  Paths are compared as strings: two different strings name two different files.
\<close>

record filesystem =
  files :: "path \<rightharpoonup> bytes"
  denied :: "path \<Rightarrow> bool"
  cwd :: path

text \<open>
  The external libraries, taken as parameters: the TIFF codec (\<open>tifffile\<close>) decodes the
  bytes of a file into the array, the shapes of its series and its ImageJ metadata, and
  encodes an array under a compression method (with the metadata and the \<open>imagej\<close>
  flag); numpy's floating-point reductions \<open>np.mean\<close> and \<open>np.std\<close> return values of a
  type \<open>'f\<close> that the model leaves open; \<open>Path.glob\<close> lists a directory.
\<close>

record 'f library =
  decode_array :: "bytes \<Rightarrow> exn + ndarray"
  decode_series :: "bytes \<Rightarrow> exn + nat list list"
  decode_imagej :: "bytes \<Rightarrow> exn + metadata option"
  encode :: "string \<Rightarrow> ndarray \<Rightarrow> metadata option \<Rightarrow> bool \<Rightarrow> exn + bytes"
  np_mean :: "ndarray \<Rightarrow> 'f"
  np_std :: "ndarray \<Rightarrow> 'f"
  path_glob :: "filesystem \<Rightarrow> path \<Rightarrow> string \<Rightarrow> path list"

section \<open>Paths (os.path on POSIX)\<close>

text \<open>\<open>str.rfind\<close> of one character: the last index, or \<open>-1\<close>.\<close>

definition rfind :: "string \<Rightarrow> char \<Rightarrow> int" where
  "rfind s c =
     (if c \<in> set s then int (length s) - 1 - int (length (takeWhile (\<lambda>x. x \<noteq> c) (rev s)))
      else - 1)"

definition basename :: "path \<Rightarrow> path" where
  "basename p = drop (nat (rfind p CHR ''/'' + 1)) p"

text \<open>
  \<open>splitext\<close>: the extension starts at the last dot after the last separator, unless
  only dots come before it in the file name.
\<close>

definition splitext :: "path \<Rightarrow> path \<times> string" where
  "splitext p =
     (let sepIndex = rfind p CHR ''/'';
          dotIndex = rfind p CHR ''.''
      in if dotIndex > sepIndex \<and>
            list_ex (\<lambda>c. c \<noteq> CHR ''.'')
              (take (nat (dotIndex - (sepIndex + 1))) (drop (nat (sepIndex + 1)) p))
         then (take (nat dotIndex) p, drop (nat dotIndex) p)
         else (p, []))"

definition path_join :: "path \<Rightarrow> path \<Rightarrow> path" where
  "path_join a b =
     (if take 1 b = ''/'' then b
      else if a = [] \<or> last a = CHR ''/'' then a @ b
      else a @ ''/'' @ b)"

definition pardir :: string where
  "pardir = ''..''"

fun split_on :: "char \<Rightarrow> string \<Rightarrow> string list" where
  "split_on c [] = [[]]"
| "split_on c (x # xs) =
     (if x = c then [] # split_on c xs
      else (case split_on c xs of [] \<Rightarrow> [[x]] | y # ys \<Rightarrow> (x # y) # ys))"

fun join_on :: "char \<Rightarrow> string list \<Rightarrow> string" where
  "join_on c [] = []"
| "join_on c [x] = x"
| "join_on c (x # y # ys) = x @ c # join_on c (y # ys)"

definition norm_step :: "nat \<Rightarrow> string \<Rightarrow> string list \<Rightarrow> string list" where
  "norm_step initial_slashes part new_comps =
     (if part = [] \<or> part = ''.'' then new_comps
      else if part \<noteq> ''..'' \<or> (initial_slashes = 0 \<and> new_comps = [])
              \<or> (new_comps \<noteq> [] \<and> last new_comps = ''..'')
           then new_comps @ [part]
      else if new_comps \<noteq> [] then butlast new_comps
      else new_comps)"

definition normpath :: "path \<Rightarrow> path" where
  "normpath p =
     (if p = [] then ''.''
      else
        let initial_slashes =
              (if take 1 p = ''/''
               then (if take 2 p = ''//'' \<and> take 3 p \<noteq> ''///'' then 2 else 1)
               else (0::nat));
            comps = fold (norm_step initial_slashes) (split_on CHR ''/'' p) [];
            r = replicate initial_slashes CHR ''/'' @ join_on CHR ''/'' comps
        in if r = [] then ''.'' else r)"

definition abspath :: "filesystem \<Rightarrow> path \<Rightarrow> path" where
  "abspath fs p = normpath (if take 1 p = ''/'' then p else path_join (cwd fs) p)"

section \<open>MD5 (hashlib.md5, RFC 1321)\<close>

type_synonym u32 = "32 word"

definition md5_s :: "nat list" where
  "md5_s = [7, 12, 17, 22, 7, 12, 17, 22, 7, 12, 17, 22, 7, 12, 17, 22,
            5, 9, 14, 20, 5, 9, 14, 20, 5, 9, 14, 20, 5, 9, 14, 20,
            4, 11, 16, 23, 4, 11, 16, 23, 4, 11, 16, 23, 4, 11, 16, 23,
            6, 10, 15, 21, 6, 10, 15, 21, 6, 10, 15, 21, 6, 10, 15, 21]"

definition md5_K :: "u32 list" where
  "md5_K =
     [0xd76aa478, 0xe8c7b756, 0x242070db, 0xc1bdceee, 0xf57c0faf, 0x4787c62a, 0xa8304613,
      0xfd469501, 0x698098d8, 0x8b44f7af, 0xffff5bb1, 0x895cd7be, 0x6b901122, 0xfd987193,
      0xa679438e, 0x49b40821, 0xf61e2562, 0xc040b340, 0x265e5a51, 0xe9b6c7aa, 0xd62f105d,
      0x02441453, 0xd8a1e681, 0xe7d3fbc8, 0x21e1cde6, 0xc33707d6, 0xf4d50d87, 0x455a14ed,
      0xa9e3e905, 0xfcefa3f8, 0x676f02d9, 0x8d2a4c8a, 0xfffa3942, 0x8771f681, 0x6d9d6122,
      0xfde5380c, 0xa4beea44, 0x4bdecfa9, 0xf6bb4b60, 0xbebfbc70, 0x289b7ec6, 0xeaa127fa,
      0xd4ef3085, 0x04881d05, 0xd9d4d039, 0xe6db99e5, 0x1fa27cf8, 0xc4ac5665, 0xf4292244,
      0x432aff97, 0xab9423a7, 0xfc93a039, 0x655b59c3, 0x8f0ccc92, 0xffeff47d, 0x85845dd1,
      0x6fa87e4f, 0xfe2ce6e0, 0xa3014314, 0x4e0811a1, 0xf7537e82, 0xbd3af235, 0x2ad7d2bb,
      0xeb86d391]"

text \<open>A little-endian word from its bytes, and the first \<open>n\<close> little-endian bytes of a word.\<close>

fun le_word :: "bytes \<Rightarrow> u32" where
  "le_word [] = 0"
| "le_word (b # bs) = ucast b + push_bit 8 (le_word bs)"

definition le_bytes :: "nat \<Rightarrow> 'a::len word \<Rightarrow> bytes" where
  "le_bytes n v = map (\<lambda>k. ucast (drop_bit (8 * k) v)) [0..<n]"

fun chunks_of :: "nat \<Rightarrow> 'a list \<Rightarrow> 'a list list" where
  "chunks_of n xs = (if n = 0 \<or> xs = [] then [] else take n xs # chunks_of n (drop n xs))"

declare chunks_of.simps [simp del]

definition rotl :: "nat \<Rightarrow> u32 \<Rightarrow> u32" where
  "rotl c x = push_bit c x OR drop_bit (32 - c) x"

definition md5_step :: "u32 list \<Rightarrow> nat \<Rightarrow> u32 \<times> u32 \<times> u32 \<times> u32 \<Rightarrow> u32 \<times> u32 \<times> u32 \<times> u32" where
  "md5_step M i st = (case st of (A, B, C, D) \<Rightarrow>
     let (F, g) =
           (if i < 16 then ((B AND C) OR (NOT B AND D), i)
            else if i < 32 then ((D AND B) OR (NOT D AND C), (5 * i + 1) mod 16)
            else if i < 48 then (B XOR C XOR D, (3 * i + 5) mod 16)
            else (C XOR (B OR NOT D), (7 * i) mod 16));
         F' = F + A + md5_K ! i + M ! g
     in (D, B + rotl (md5_s ! i) F', B, C))"

definition md5_block :: "u32 \<times> u32 \<times> u32 \<times> u32 \<Rightarrow> bytes \<Rightarrow> u32 \<times> u32 \<times> u32 \<times> u32" where
  "md5_block st chunk = (case st of (a0, b0, c0, d0) \<Rightarrow>
     (case fold (md5_step (map le_word (chunks_of 4 chunk))) [0..<64] (a0, b0, c0, d0) of
        (A, B, C, D) \<Rightarrow> (a0 + A, b0 + B, c0 + C, d0 + D)))"

text \<open>
  Padding: the byte \<open>0x80\<close>, zero bytes up to 56 modulo 64, and the length of the message
  in bits as a 64-bit little-endian integer.
\<close>

definition md5_pad :: "bytes \<Rightarrow> bytes" where
  "md5_pad msg =
     msg @ [0x80] @ replicate ((119 - length msg mod 64) mod 64) 0
       @ le_bytes 8 (8 * of_nat (length msg) :: 64 word)"

definition md5_init :: "u32 \<times> u32 \<times> u32 \<times> u32" where
  "md5_init = (0x67452301, 0xefcdab89, 0x98badcfe, 0x10325476)"

definition md5 :: "bytes \<Rightarrow> bytes" where
  "md5 msg =
     (case fold (\<lambda>chunk st. md5_block st chunk) (chunks_of 64 (md5_pad msg)) md5_init of
        (a, b, c, d) \<Rightarrow> concat (map (le_bytes 4) [a, b, c, d]))"

definition hex_digit :: "nat \<Rightarrow> char" where
  "hex_digit n = ''0123456789abcdef'' ! n"

definition hexdigest :: "bytes \<Rightarrow> string" where
  "hexdigest d = concat (map (\<lambda>b. [hex_digit (unat b div 16), hex_digit (unat b mod 16)]) d)"

text \<open>
  Two messages of 128 bytes that differ in six bytes (the collision published by Wang
  and Yu in 2004).
\<close>

definition collision_a :: bytes where
  "collision_a =
     [0xd1, 0x31, 0xdd, 0x02, 0xc5, 0xe6, 0xee, 0xc4, 0x69, 0x3d, 0x9a, 0x06, 0x98, 0xaf, 0xf9, 0x5c,
      0x2f, 0xca, 0xb5, 0x87, 0x12, 0x46, 0x7e, 0xab, 0x40, 0x04, 0x58, 0x3e, 0xb8, 0xfb, 0x7f, 0x89,
      0x55, 0xad, 0x34, 0x06, 0x09, 0xf4, 0xb3, 0x02, 0x83, 0xe4, 0x88, 0x83, 0x25, 0x71, 0x41, 0x5a,
      0x08, 0x51, 0x25, 0xe8, 0xf7, 0xcd, 0xc9, 0x9f, 0xd9, 0x1d, 0xbd, 0xf2, 0x80, 0x37, 0x3c, 0x5b,
      0xd8, 0x82, 0x3e, 0x31, 0x56, 0x34, 0x8f, 0x5b, 0xae, 0x6d, 0xac, 0xd4, 0x36, 0xc9, 0x19, 0xc6,
      0xdd, 0x53, 0xe2, 0xb4, 0x87, 0xda, 0x03, 0xfd, 0x02, 0x39, 0x63, 0x06, 0xd2, 0x48, 0xcd, 0xa0,
      0xe9, 0x9f, 0x33, 0x42, 0x0f, 0x57, 0x7e, 0xe8, 0xce, 0x54, 0xb6, 0x70, 0x80, 0xa8, 0x0d, 0x1e,
      0xc6, 0x98, 0x21, 0xbc, 0xb6, 0xa8, 0x83, 0x93, 0x96, 0xf9, 0x65, 0x2b, 0x6f, 0xf7, 0x2a, 0x70]"

definition collision_b :: bytes where
  "collision_b =
     [0xd1, 0x31, 0xdd, 0x02, 0xc5, 0xe6, 0xee, 0xc4, 0x69, 0x3d, 0x9a, 0x06, 0x98, 0xaf, 0xf9, 0x5c,
      0x2f, 0xca, 0xb5, 0x07, 0x12, 0x46, 0x7e, 0xab, 0x40, 0x04, 0x58, 0x3e, 0xb8, 0xfb, 0x7f, 0x89,
      0x55, 0xad, 0x34, 0x06, 0x09, 0xf4, 0xb3, 0x02, 0x83, 0xe4, 0x88, 0x83, 0x25, 0xf1, 0x41, 0x5a,
      0x08, 0x51, 0x25, 0xe8, 0xf7, 0xcd, 0xc9, 0x9f, 0xd9, 0x1d, 0xbd, 0x72, 0x80, 0x37, 0x3c, 0x5b,
      0xd8, 0x82, 0x3e, 0x31, 0x56, 0x34, 0x8f, 0x5b, 0xae, 0x6d, 0xac, 0xd4, 0x36, 0xc9, 0x19, 0xc6,
      0xdd, 0x53, 0xe2, 0x34, 0x87, 0xda, 0x03, 0xfd, 0x02, 0x39, 0x63, 0x06, 0xd2, 0x48, 0xcd, 0xa0,
      0xe9, 0x9f, 0x33, 0x42, 0x0f, 0x57, 0x7e, 0xe8, 0xce, 0x54, 0xb6, 0x70, 0x80, 0x28, 0x0d, 0x1e,
      0xc6, 0x98, 0x21, 0xbc, 0xb6, 0xa8, 0x83, 0x93, 0x96, 0xf9, 0x65, 0xab, 0x6f, 0xf7, 0x2a, 0x70]"

section \<open>Reading files\<close>

text \<open>Sequencing of calls that may raise: the first exception ends the computation.\<close>

definition bind :: "exn + 'a \<Rightarrow> ('a \<Rightarrow> exn + 'b) \<Rightarrow> exn + 'b" where
  "bind m f = (case m of Inl e \<Rightarrow> Inl e | Inr x \<Rightarrow> f x)"

definition quoted :: "string \<Rightarrow> string" where
  "quoted p = [CHR 0x27] @ p @ [CHR 0x27]"

definition file_not_found :: "path \<Rightarrow> exn" where
  "file_not_found p =
     PyErr ''FileNotFoundError'' (''[Errno 2] No such file or directory: '' @ quoted p)"

text \<open>\<open>open(path, "rb")\<close> and reading: the bytes of the file, or the error of a missing file.\<close>

definition read_bytes :: "filesystem \<Rightarrow> path \<Rightarrow> exn + bytes" where
  "read_bytes fs p = (case files fs p of None \<Rightarrow> Inl (file_not_found p) | Some bs \<Rightarrow> Inr bs)"

definition getsize :: "filesystem \<Rightarrow> path \<Rightarrow> exn + nat" where
  "getsize fs p = (case files fs p of None \<Rightarrow> Inl (file_not_found p) | Some bs \<Rightarrow> Inr (length bs))"

definition isfile :: "filesystem \<Rightarrow> path \<Rightarrow> bool" where
  "isfile fs p = (files fs p \<noteq> None)"

definition os_remove :: "filesystem \<Rightarrow> path \<Rightarrow> exn + filesystem" where
  "os_remove fs p =
     (if files fs p = None then Inl (file_not_found p)
      else if denied fs p
           then Inl (PyErr ''PermissionError'' (''[Errno 13] Permission denied: '' @ quoted p))
      else Inr (fs\<lparr>files := (files fs)(p := None)\<rparr>))"

definition write_bytes :: "filesystem \<Rightarrow> path \<Rightarrow> bytes \<Rightarrow> filesystem" where
  "write_bytes fs p bs = fs\<lparr>files := (files fs)(p \<mapsto> bs)\<rparr>"

text \<open>\<open>tifffile.imread(path)\<close>, and the two attributes read from an opened \<open>TiffFile\<close>.\<close>

definition imread :: "'f library \<Rightarrow> filesystem \<Rightarrow> path \<Rightarrow> exn + ndarray" where
  "imread lib fs p = bind (read_bytes fs p) (decode_array lib)"

definition series0_shape :: "'f library \<Rightarrow> filesystem \<Rightarrow> path \<Rightarrow> exn + nat list" where
  "series0_shape lib fs p =
     bind (read_bytes fs p) (\<lambda>bs.
     bind (decode_series lib bs) (\<lambda>series.
       case series of
         [] \<Rightarrow> Inl (PyErr ''IndexError'' ''list index out of range'')
       | sh # _ \<Rightarrow> Inr sh))"

definition imagej_metadata :: "'f library \<Rightarrow> filesystem \<Rightarrow> path \<Rightarrow> exn + metadata option" where
  "imagej_metadata lib fs p = bind (read_bytes fs p) (decode_imagej lib)"

section \<open>The verifier (compression_check.py)\<close>

text \<open>\<open>np.array_equal\<close>: the same shape and the same elements.\<close>

definition array_equal :: "ndarray \<Rightarrow> ndarray \<Rightarrow> bool" where
  "array_equal a b = (shape a = shape b \<and> data a = data b)"

text \<open>\<open>except Exception as e: raise Exception(f"<prefix>{str(e)}")\<close>\<close>

definition wrap_exn :: "string \<Rightarrow> exn + 'a \<Rightarrow> exn + 'a" where
  "wrap_exn prefix m =
     (case m of Inl e \<Rightarrow> Inl (PyErr ''Exception'' (prefix @ err_msg e)) | Inr x \<Rightarrow> Inr x)"

definition verify_pixel_values :: "'f library \<Rightarrow> filesystem \<Rightarrow> path \<Rightarrow> path \<Rightarrow> exn + bool" where
  "verify_pixel_values lib fs original_path compressed_path =
     wrap_exn ''Pixel comparison failed: ''
       (bind (imread lib fs original_path) (\<lambda>original.
        bind (imread lib fs compressed_path) (\<lambda>compressed.
          if shape original \<noteq> shape compressed then Inr False
          else Inr (array_equal original compressed))))"

text \<open>
  \<open>get_file_hash\<close>: the file is read in chunks of 4096 bytes, each chunk is added to the
  hash object (\<open>update\<close> appends to the hashed message), the digest is printed in hex.
\<close>

definition get_file_hash :: "filesystem \<Rightarrow> path \<Rightarrow> exn + string" where
  "get_file_hash fs file_path =
     bind (read_bytes fs file_path) (\<lambda>content.
       Inr (hexdigest (md5 (fold (\<lambda>chunk hashed. hashed @ chunk) (chunks_of 4096 content) []))))"

definition verify_file_hashes :: "filesystem \<Rightarrow> path \<Rightarrow> path \<Rightarrow> exn + bool" where
  "verify_file_hashes fs original_path compressed_path =
     bind (get_file_hash fs original_path) (\<lambda>original_hash.
     bind (get_file_hash fs compressed_path) (\<lambda>compressed_hash.
       Inr (original_hash \<noteq> compressed_hash)))"

definition verify_dimensions :: "'f library \<Rightarrow> filesystem \<Rightarrow> path \<Rightarrow> path \<Rightarrow> exn + bool" where
  "verify_dimensions lib fs original_path compressed_path =
     bind (series0_shape lib fs original_path) (\<lambda>orig_shape.
     bind (series0_shape lib fs compressed_path) (\<lambda>comp_shape.
       Inr (orig_shape = comp_shape)))"

definition crucial_fields :: "string list" where
  "crucial_fields = [''frames'', ''slices'', ''channels'']"

definition verify_metadata :: "'f library \<Rightarrow> filesystem \<Rightarrow> path \<Rightarrow> path \<Rightarrow> exn + bool" where
  "verify_metadata lib fs original_path compressed_path =
     bind (imagej_metadata lib fs original_path) (\<lambda>orig_meta.
     bind (imagej_metadata lib fs compressed_path) (\<lambda>comp_meta.
       case (orig_meta, comp_meta) of
         (None, None) \<Rightarrow> Inr True
       | (None, Some _) \<Rightarrow> Inr False
       | (Some _, None) \<Rightarrow> Inr False
       | (Some om, Some cm) \<Rightarrow>
           Inr (list_all (\<lambda>field. map_of om field = map_of cm field)
                  (filter (\<lambda>field. map_of om field \<noteq> None) crucial_fields))))"

text \<open>\<open>np.min\<close> and \<open>np.max\<close> raise on an array with no element.\<close>

definition zero_size :: "string \<Rightarrow> exn" where
  "zero_size which =
     PyErr ''ValueError''
       (''zero-size array to reduction operation '' @ which @ '' which has no identity'')"

definition np_min :: "ndarray \<Rightarrow> exn + int" where
  "np_min a = (case data a of [] \<Rightarrow> Inl (zero_size ''minimum'') | x # xs \<Rightarrow> Inr (fold min xs x))"

definition np_max :: "ndarray \<Rightarrow> exn + int" where
  "np_max a = (case data a of [] \<Rightarrow> Inl (zero_size ''maximum'') | x # xs \<Rightarrow> Inr (fold max xs x))"

definition verify_statistics :: "'f library \<Rightarrow> filesystem \<Rightarrow> path \<Rightarrow> path \<Rightarrow> exn + bool" where
  "verify_statistics lib fs original_path compressed_path =
     bind (imread lib fs original_path) (\<lambda>original.
     bind (imread lib fs compressed_path) (\<lambda>compressed.
     bind (np_min original) (\<lambda>min_o.
     bind (np_min compressed) (\<lambda>min_c.
     bind (np_max original) (\<lambda>max_o.
     bind (np_max compressed) (\<lambda>max_c.
       let stats_match =
             [(''min'', min_o = min_c),
              (''max'', max_o = max_c),
              (''mean'', np_mean lib original = np_mean lib compressed),
              (''std'', np_std lib original = np_std lib compressed)]
       in Inr (list_all snd stats_match)))))))"

definition verify_all ::
  "'f library \<Rightarrow> filesystem \<Rightarrow> path \<Rightarrow> path \<Rightarrow> exn + (string \<times> bool) list" where
  "verify_all lib fs original_path compressed_path =
     bind (verify_pixel_values lib fs original_path compressed_path) (\<lambda>pixels.
     bind (verify_file_hashes fs original_path compressed_path) (\<lambda>hashes.
     bind (verify_dimensions lib fs original_path compressed_path) (\<lambda>dimensions.
     bind (verify_metadata lib fs original_path compressed_path) (\<lambda>meta.
     bind (verify_statistics lib fs original_path compressed_path) (\<lambda>statistics.
       Inr [(''pixel_values_match'', pixels),
            (''file_hash_different'', hashes),
            (''dimensions_match'', dimensions),
            (''metadata_matches'', meta),
            (''statistical_match'', statistics)])))))"

text \<open>
  \<open>check_compression\<close> with \<open>plot=False\<close>, as every caller in the repository has it; the
  lines it prints are not part of the model.
\<close>

definition check_compression :: "'f library \<Rightarrow> filesystem \<Rightarrow> path \<Rightarrow> path \<Rightarrow> exn + bool" where
  "check_compression lib fs original compressed =
     bind (verify_all lib fs original compressed) (\<lambda>results.
       Inr (list_all snd results))"

section \<open>The compressor (tiff_compression.py)\<close>

text \<open>The table of methods: the Pillow name and the tifffile name of each.\<close>

definition COMPRESSION_METHODS :: "(string \<times> string \<times> string) list" where
  "COMPRESSION_METHODS =
     [(''lzw'', ''tiff_lzw'', ''lzw''),
      (''zip'', ''tiff_deflate'', ''zlib''),
      (''packbits'', ''tiff_adobe_deflate'', ''packbits'')]"

definition tifffile_method :: "string \<Rightarrow> exn + string" where
  "tifffile_method method =
     (case map_of COMPRESSION_METHODS method of
        None \<Rightarrow> Inl (PyErr ''KeyError'' (quoted method))
      | Some (pillow, tf) \<Rightarrow> Inr tf)"

record tiff_compressor =
  input_path :: path
  original_size :: nat

definition TiffCompressor :: "filesystem \<Rightarrow> path \<Rightarrow> exn + tiff_compressor" where
  "TiffCompressor fs p =
     bind (getsize fs p) (\<lambda>sz. Inr \<lparr>input_path = p, original_size = sz\<rparr>)"

text \<open>The statistics are floats in the source; the model computes them exactly.\<close>

record compression_stats =
  original_size_mb :: rat
  compressed_size_mb :: rat
  compression_ratio :: rat
  space_saved_mb :: rat

definition get_compression_stats ::
  "filesystem \<Rightarrow> tiff_compressor \<Rightarrow> path \<Rightarrow> exn + compression_stats" where
  "get_compression_stats fs self output_path =
     bind (getsize fs output_path) (\<lambda>compressed_size.
       if original_size self = 0 then Inl (PyErr ''ZeroDivisionError'' ''division by zero'')
       else Inr \<lparr>original_size_mb = of_nat (original_size self) / (1024 * 1024),
                 compressed_size_mb = of_nat compressed_size / (1024 * 1024),
                 compression_ratio =
                   (1 - of_nat compressed_size / of_nat (original_size self)) * 100,
                 space_saved_mb =
                   (of_nat (original_size self) - of_nat compressed_size) / (1024 * 1024)\<rparr>)"

text \<open>Python's truth value of the metadata: \<open>None\<close> and the empty dictionary are false.\<close>

definition truthy :: "metadata option \<Rightarrow> bool" where
  "truthy metadata = (case metadata of None \<Rightarrow> False | Some m \<Rightarrow> m \<noteq> [])"

text \<open>
  \<open>compress_with_tifffile\<close> returns the result and the filesystem: a file that was
  written stays written when the statistics raise afterwards.
\<close>

definition compress_with_tifffile ::
  "'f library \<Rightarrow> filesystem \<Rightarrow> tiff_compressor \<Rightarrow> path \<Rightarrow> string
     \<Rightarrow> (exn + compression_stats) \<times> filesystem" where
  "compress_with_tifffile lib fs self output_path method =
     (case bind (read_bytes fs (input_path self)) (\<lambda>bs.
           bind (decode_array lib bs) (\<lambda>array.
           bind (decode_imagej lib bs) (\<lambda>metadata.
           bind (tifffile_method method) (\<lambda>tf.
             encode lib tf array metadata (truthy metadata))))) of
        Inl e \<Rightarrow> (wrap_exn ''Tifffile compression failed: '' (Inl e), fs)
      | Inr out \<Rightarrow>
          let fs' = write_bytes fs output_path out
          in (wrap_exn ''Tifffile compression failed: ''
                (get_compression_stats fs' self output_path), fs'))"

definition compressed_name_of :: "filesystem \<Rightarrow> path \<Rightarrow> string \<Rightarrow> path" where
  "compressed_name_of fs file compression_type =
     (let folder = abspath fs (path_join file pardir);
          name = path_join folder (fst (splitext (basename file)))
      in name @ ''_compressed_'' @ compression_type @ ''.tif'')"

definition compress_file ::
  "'f library \<Rightarrow> filesystem \<Rightarrow> path \<Rightarrow> string \<Rightarrow> (exn + path) \<times> filesystem" where
  "compress_file lib fs file compression_type =
     (let compressed_name = compressed_name_of fs file compression_type
      in case TiffCompressor fs file of
           Inl e \<Rightarrow> (Inl e, fs)
         | Inr compressor \<Rightarrow>
             (case compress_with_tifffile lib fs compressor compressed_name compression_type of
                (Inl e, fs') \<Rightarrow> (Inl e, fs')
              | (Inr compressed_file, fs') \<Rightarrow> (Inr compressed_name, fs')))"

text \<open>
  \<open>batch_compress_directory\<close>: the results, the lines printed and the filesystem.
  Directories are not part of the model, so \<open>mkdir(exist_ok=True)\<close> changes nothing.
\<close>

definition batch_step ::
  "'f library \<Rightarrow> path \<Rightarrow> string \<Rightarrow> path
     \<Rightarrow> (compression_stats \<times> string) list \<times> string list \<times> filesystem
     \<Rightarrow> (compression_stats \<times> string) list \<times> string list \<times> filesystem" where
  "batch_step lib output_dir method tiff_file st = (case st of (results, printed, fs) \<Rightarrow>
     (case TiffCompressor fs tiff_file of
        Inl e \<Rightarrow> (results, printed @ [''Error processing '' @ tiff_file @ '': '' @ err_msg e], fs)
      | Inr compressor \<Rightarrow>
          let output_path = path_join output_dir (''compressed_'' @ basename tiff_file)
          in (case compress_with_tifffile lib fs compressor output_path method of
                (Inl e, fs') \<Rightarrow>
                  (results, printed @ [''Error processing '' @ tiff_file @ '': '' @ err_msg e], fs')
              | (Inr stats, fs') \<Rightarrow> (results @ [(stats, basename tiff_file)], printed, fs'))))"

definition batch_compress_directory ::
  "'f library \<Rightarrow> filesystem \<Rightarrow> path \<Rightarrow> path \<Rightarrow> string
     \<Rightarrow> (compression_stats \<times> string) list \<times> string list \<times> filesystem" where
  "batch_compress_directory lib fs input_dir output_dir method =
     fold (batch_step lib output_dir method) (path_glob lib fs input_dir ''*.tif*'') ([], [], fs)"

section \<open>The file manager and the window (tiff_compression_gui.py)\<close>

text \<open>
  The state of the window: the disk it works on, the Tk variables, the progress bar,
  the text of the results area, and the modal dialogs shown so far (kind, title,
  message).
\<close>

record gui =
  disk :: filesystem
  path_var :: string
  compression_var :: string
  progress_var :: string
  progress_bar :: rat
  results_text :: string
  dialogs :: "(string \<times> string \<times> string) list"

definition nl :: string where
  "nl = [CHR 0x0A]"

definition add_result :: "gui \<Rightarrow> string \<Rightarrow> gui" where
  "add_result s text = s\<lparr>results_text := results_text s @ text\<rparr>"

definition manage_files :: "gui \<Rightarrow> path \<Rightarrow> path \<Rightarrow> bool \<Rightarrow> path \<times> gui" where
  "manage_files s original_path compressed_path compression_successful =
     (if compression_successful then
        (case os_remove (disk s) original_path of
           Inr fs' \<Rightarrow>
             (compressed_path,
              add_result (s\<lparr>disk := fs'\<rparr>)
                (''Original file deleted: '' @ basename original_path @ nl))
         | Inl e \<Rightarrow>
             (original_path, add_result s (''Error managing files: '' @ err_msg e @ nl)))
      else
        (case os_remove (disk s) compressed_path of
           Inr fs' \<Rightarrow>
             (original_path,
              add_result (s\<lparr>disk := fs'\<rparr>)
                (''Compressed file deleted: '' @ basename compressed_path @ nl))
         | Inl e \<Rightarrow>
             (original_path, add_result s (''Error managing files: '' @ err_msg e @ nl))))"

text \<open>
  \<open>compress_single_file\<close> returns nothing; the model returns the exception that escaped,
  if any, and the state.  \<open>single_file_report\<close> is the part after the verification.
\<close>

definition single_file_report :: "gui \<Rightarrow> path \<Rightarrow> path \<Rightarrow> bool \<Rightarrow> gui" where
  "single_file_report s file_path compressed_path success =
     (let s1 = add_result s (''File: '' @ basename file_path @ nl);
          s2 = add_result s1 (''Compressed to: '' @ basename compressed_path @ nl);
          s3 = add_result s2
                 (''Verification: '' @ (if success then ''Success'' else ''Failed'') @ nl);
          (kept_file, s4) = manage_files s3 file_path compressed_path success;
          s5 = add_result s4 (''Kept file: '' @ basename kept_file @ nl)
      in add_result s5 (replicate 50 CHR ''-'' @ nl))"

definition compress_single_file :: "'f library \<Rightarrow> gui \<Rightarrow> path \<Rightarrow> (exn + unit) \<times> gui" where
  "compress_single_file lib s file_path =
     (let s1 = s\<lparr>progress_bar := 33\<rparr>
      in case compress_file lib (disk s1) file_path (compression_var s1) of
           (Inl e, fs') \<Rightarrow> (Inl e, s1\<lparr>disk := fs'\<rparr>)
         | (Inr compressed_path, fs') \<Rightarrow>
             let s2 = s1\<lparr>disk := fs', progress_bar := 66\<rparr>
             in (case check_compression lib (disk s2) file_path compressed_path of
                   Inl e \<Rightarrow> (Inl e, s2)
                 | Inr success \<Rightarrow>
                     (Inr (), single_file_report s2 file_path compressed_path success)))"

text \<open>Decimal digits of a number, for \<open>f"Processing file {i} of {total_files}"\<close>.\<close>

fun str_nat :: "nat \<Rightarrow> string" where
  "str_nat n =
     (if n < 10 then [''0123456789'' ! n]
      else str_nat (n div 10) @ [''0123456789'' ! (n mod 10)])"

declare str_nat.simps [simp del]

text \<open>
  The loop of \<open>compress_folder\<close> over \<open>enumerate(tiff_files, 1)\<close>: an exception of
  \<open>compress_single_file\<close> leaves the loop and the function.
\<close>

fun compress_folder_loop ::
  "'f library \<Rightarrow> nat \<Rightarrow> nat \<Rightarrow> path list \<Rightarrow> gui \<Rightarrow> (exn + unit) \<times> gui" where
  "compress_folder_loop lib total_files i [] s = (Inr (), s)"
| "compress_folder_loop lib total_files i (file_path # rest) s =
     (let s1 = s\<lparr>progress_bar := (of_nat i / of_nat total_files) * 100,
                  progress_var :=
                    ''Processing file '' @ str_nat i @ '' of '' @ str_nat total_files\<rparr>
      in case compress_single_file lib s1 file_path of
           (Inl e, s2) \<Rightarrow> (Inl e, s2)
         | (Inr _, s2) \<Rightarrow> compress_folder_loop lib total_files (i + 1) rest s2)"

definition compress_folder :: "'f library \<Rightarrow> gui \<Rightarrow> path \<Rightarrow> (exn + unit) \<times> gui" where
  "compress_folder lib s folder_path =
     (let tiff_files = path_glob lib (disk s) folder_path ''**/*.tif*'';
          total_files = length tiff_files
      in if total_files = 0
         then (Inr (), add_result s (''No TIFF files found in the selected folder.'' @ nl))
         else compress_folder_loop lib total_files 1 tiff_files s)"

definition show_dialog :: "gui \<Rightarrow> string \<Rightarrow> string \<Rightarrow> string \<Rightarrow> gui" where
  "show_dialog s kind title message = s\<lparr>dialogs := dialogs s @ [(kind, title, message)]\<rparr>"

text \<open>The handler of the \<open>Compress\<close> button.\<close>

definition compress :: "'f library \<Rightarrow> gui \<Rightarrow> gui" where
  "compress lib s =
     (let path = path_var s
      in if path = []
         then show_dialog s ''showerror'' ''Error'' ''Please select a file or folder first''
         else
           let s1 = s\<lparr>results_text := [], progress_var := ''Processing...'', progress_bar := 0\<rparr>
           in (case (if isfile (disk s1) path then compress_single_file lib s1 path
                     else compress_folder lib s1 path) of
                 (Inr _, s2) \<Rightarrow>
                   show_dialog
                     (s2\<lparr>progress_var := ''Compression completed!'', progress_bar := 100\<rparr>)
                     ''showinfo'' ''Success'' ''Compression completed successfully!''
               | (Inl e, s2) \<Rightarrow>
                   show_dialog (s2\<lparr>progress_var := ''Error occurred!''\<rparr>)
                     ''showerror'' ''Error'' (''An error occurred: '' @ err_msg e)))"

section \<open>A sample codec, to run the model on concrete files\<close>

text \<open>
  A toy container format stands in for the libraries where a theorem is used on a
  concrete input: the first byte of a file is the tag of its compression, the other
  bytes are the samples of a one-dimensional image; a file with no byte does not decode.
  The mean and the standard deviation are computed over the reals.
\<close>

definition sample_error :: exn where
  "sample_error = PyErr ''TiffFileError'' ''not a TIFF file''"

definition sample_decode_array :: "bytes \<Rightarrow> exn + ndarray" where
  "sample_decode_array bs =
     (case bs of [] \<Rightarrow> Inl sample_error
      | tag # px \<Rightarrow> Inr \<lparr>shape = [length px], data = map uint px\<rparr>)"

definition sample_decode_series :: "bytes \<Rightarrow> exn + nat list list" where
  "sample_decode_series bs =
     (case bs of [] \<Rightarrow> Inl sample_error | tag # px \<Rightarrow> Inr [[length px]])"

definition sample_decode_imagej :: "bytes \<Rightarrow> exn + metadata option" where
  "sample_decode_imagej bs = (case bs of [] \<Rightarrow> Inl sample_error | tag # px \<Rightarrow> Inr None)"

definition sample_encode :: "string \<Rightarrow> ndarray \<Rightarrow> metadata option \<Rightarrow> bool \<Rightarrow> exn + bytes" where
  "sample_encode tf a metadata imagej =
     Inr ((if tf = ''zlib'' then 1 else if tf = ''lzw'' then 2 else 3) # map of_int (data a))"

definition sample_mean :: "ndarray \<Rightarrow> real" where
  "sample_mean a = of_int (sum_list (data a)) / of_nat (length (data a))"

definition sample_std :: "ndarray \<Rightarrow> real" where
  "sample_std a =
     sqrt (sum_list (map (\<lambda>x. (of_int x - sample_mean a)\<^sup>2) (data a))
           / of_nat (length (data a)))"

definition sample_lib :: "path list \<Rightarrow> real library" where
  "sample_lib listing =
     \<lparr>decode_array = sample_decode_array,
      decode_series = sample_decode_series,
      decode_imagej = sample_decode_imagej,
      encode = sample_encode,
      np_mean = sample_mean,
      np_std = sample_std,
      path_glob = (\<lambda>fs dir pattern. listing)\<rparr>"

definition sample_fs :: "(path \<times> bytes) list \<Rightarrow> filesystem" where
  "sample_fs content = \<lparr>files = map_of content, denied = (\<lambda>p. False), cwd = ''/''\<rparr>"

definition sample_gui :: "(path \<times> bytes) list \<Rightarrow> gui" where
  "sample_gui content =
     \<lparr>disk = sample_fs content, path_var = [], compression_var = ''zip'',
      progress_var = ''Ready'', progress_bar = 0, results_text = [], dialogs = []\<rparr>"

text \<open>A variant whose tag also stands for the ImageJ metadata of the file.\<close>

definition sample_tagged_metadata :: "bytes \<Rightarrow> exn + metadata option" where
  "sample_tagged_metadata bs =
     (case bs of [] \<Rightarrow> Inl sample_error
      | tag # px \<Rightarrow>
          Inr (if tag = 0 then None
               else Some ([(''frames'', uint tag)] @ (if tag = 2 then [(''unit'', 1)] else []))))"

text \<open>A window on a disk where the original may not be removed.\<close>

definition sample_locked_gui :: gui where
  "sample_locked_gui =
     (sample_gui [(''/d/a.tif'', [0, 5, 7]), (''/d/a_compressed_zip.tif'', [1, 5, 7])])
       \<lparr>disk := (sample_fs [(''/d/a.tif'', [0, 5, 7]), (''/d/a_compressed_zip.tif'', [1, 5, 7])])
                   \<lparr>denied := (\<lambda>p. p = ''/d/a.tif'')\<rparr>\<rparr>"

text \<open>A folder with a file that is not a TIFF between two images.\<close>

definition sample_folder :: "(path \<times> bytes) list" where
  "sample_folder = [(''/d/a.tif'', [0, 5, 7]), (''/d/b.tif'', []), (''/d/c.tif'', [0, 5, 7])]"

section \<open>Theorems\<close>

subsection \<open>Reading\<close>

lemma bind_Inr [simp]: "bind (Inr x) f = f x"
  by (simp add: bind_def)

lemma bind_Inl [simp]: "bind (Inl e) f = Inl e"
  by (simp add: bind_def)

lemma wrap_exn_Inr [simp]: "wrap_exn p (Inr x) = Inr x"
  by (simp add: wrap_exn_def)

lemma wrap_exn_Inl [simp]: "wrap_exn p (Inl e) = Inl (PyErr ''Exception'' (p @ err_msg e))"
  by (simp add: wrap_exn_def)

lemma imread_Some:
  "files fs p = Some bs \<Longrightarrow> imread lib fs p = decode_array lib bs"
  by (simp add: imread_def read_bytes_def)

lemma sample_fs_simps [simp]:
  "files (sample_fs content) = map_of content"
  "denied (sample_fs content) p = False"
  "cwd (sample_fs content) = ''/''"
  by (simp_all add: sample_fs_def)

lemma sample_lib_simps [simp]:
  "decode_array (sample_lib l) = sample_decode_array"
  "decode_series (sample_lib l) = sample_decode_series"
  "decode_imagej (sample_lib l) = sample_decode_imagej"
  "encode (sample_lib l) = sample_encode"
  "np_mean (sample_lib l) = sample_mean"
  "np_std (sample_lib l) = sample_std"
  "path_glob (sample_lib l) fs dir pattern = l"
  by (simp_all add: sample_lib_def)

subsection \<open>Evaluating MD5\<close>

text \<open>
  The digests below are computed by rewriting.  Each step of a block is rewritten with
  its result masked to 32 bits, which changes nothing on a 32-bit word and keeps the
  numerals small.
\<close>

lemma upt_0_64:
  "[0..<64] =
     [0, 1, 2, 3, 4, 5, 6, 7, 8, 9, 10, 11, 12, 13, 14, 15]
     @ [16, 17, 18, 19, 20, 21, 22, 23, 24, 25, 26, 27, 28, 29, 30, 31]
     @ [32, 33, 34, 35, 36, 37, 38, 39, 40, 41, 42, 43, 44, 45, 46, 47]
     @ [48, 49, 50, 51, 52, 53, 54, 55, 56, 57, 58, 59, 60, 61, 62, 63]"
  by (simp add: upt_conv_Cons)

lemma upt_0_8: "[0..<8] = [0, 1, 2, 3, 4, 5, 6, 7]"
  by (simp add: upt_conv_Cons)

lemma upt_0_4: "[0..<4] = [0, 1, 2, 3]"
  by (simp add: upt_conv_Cons)

lemma chunks_of_Nil: "chunks_of n [] = []"
  by (simp add: chunks_of.simps)

lemma chunks_of_Cons:
  "chunks_of (numeral n) (x # xs)
     = take (numeral n) (x # xs) # chunks_of (numeral n) (drop (numeral n) (x # xs))"
  by (simp add: chunks_of.simps)

lemma mask32: "(x :: u32) AND 0xffffffff = x"
proof -
  have e: "(0xffffffff :: u32) = - 1" by simp
  show ?thesis unfolding e by simp
qed

lemma md5_step_masked:
  "md5_step M i (A, B, C, D) =
     (D,
      (B + rotl (md5_s ! i)
         (((if i < 16 then (B AND C) OR (NOT B AND D)
            else if i < 32 then (D AND B) OR (NOT D AND C)
            else if i < 48 then B XOR C XOR D
            else C XOR (B OR NOT D))
           + A + md5_K ! i
           + M ! (if i < 16 then i
                  else if i < 32 then (5 * i + 1) mod 16
                  else if i < 48 then (3 * i + 5) mod 16
                  else (7 * i) mod 16)) AND 0xffffffff)) AND 0xffffffff,
      B, C)"
  unfolding mask32 by (simp add: md5_step_def)

lemma md5_block_tuple:
  "md5_block (a0, b0, c0, d0) chunk =
     (case fold (md5_step (map le_word (chunks_of 4 chunk))) [0..<64] (a0, b0, c0, d0) of
        (A, B, C, D) \<Rightarrow> (a0 + A, b0 + B, c0 + C, d0 + D))"
  by (simp add: md5_block_def)

lemma replicate_55: "replicate 55 (0 :: 8 word) = [0, 0, 0, 0, 0, 0, 0, 0, 0, 0, 0, 0, 0, 0, 0, 0, 0, 0, 0, 0, 0, 0, 0, 0, 0, 0, 0, 0, 0, 0, 0, 0, 0, 0, 0, 0, 0, 0, 0, 0, 0, 0, 0, 0, 0, 0, 0, 0, 0, 0, 0, 0, 0, 0, 0]"
  by (simp add: numeral_eq_Suc)

lemma md5_block_a1:
  "md5_block (0x67452301, 0xefcdab89, 0x98badcfe, 0x10325476)
     [0xd1, 0x31, 0xdd, 0x02, 0xc5, 0xe6, 0xee, 0xc4, 0x69, 0x3d, 0x9a, 0x06, 0x98, 0xaf, 0xf9, 0x5c,
      0x2f, 0xca, 0xb5, 0x87, 0x12, 0x46, 0x7e, 0xab, 0x40, 0x04, 0x58, 0x3e, 0xb8, 0xfb, 0x7f, 0x89,
      0x55, 0xad, 0x34, 0x06, 0x09, 0xf4, 0xb3, 0x02, 0x83, 0xe4, 0x88, 0x83, 0x25, 0x71, 0x41, 0x5a,
      0x08, 0x51, 0x25, 0xe8, 0xf7, 0xcd, 0xc9, 0x9f, 0xd9, 0x1d, 0xbd, 0xf2, 0x80, 0x37, 0x3c, 0x5b]
   = (0x52589324, 0x3093d7ca, 0x2a06dc54, 0x20c5be06)"
proof -
  let ?M = "[0x02dd31d1, 0xc4eee6c5, 0x069a3d69, 0x5cf9af98, 0x87b5ca2f, 0xab7e4612, 0x3e580440, 0x897ffbb8, 0x0634ad55, 0x02b3f409, 0x8388e483, 0x5a417125, 0xe8255108, 0x9fc9cdf7, 0xf2bd1dd9, 0x5b3c3780]"
  have M: "map le_word (chunks_of 4
     [0xd1, 0x31, 0xdd, 0x02, 0xc5, 0xe6, 0xee, 0xc4, 0x69, 0x3d, 0x9a, 0x06, 0x98, 0xaf, 0xf9, 0x5c,
      0x2f, 0xca, 0xb5, 0x87, 0x12, 0x46, 0x7e, 0xab, 0x40, 0x04, 0x58, 0x3e, 0xb8, 0xfb, 0x7f, 0x89,
      0x55, 0xad, 0x34, 0x06, 0x09, 0xf4, 0xb3, 0x02, 0x83, 0xe4, 0x88, 0x83, 0x25, 0x71, 0x41, 0x5a,
      0x08, 0x51, 0x25, 0xe8, 0xf7, 0xcd, 0xc9, 0x9f, 0xd9, 0x1d, 0xbd, 0xf2, 0x80, 0x37, 0x3c, 0x5b])
    = ?M"
    by (simp add: chunks_of_Cons chunks_of_Nil)
  have F1: "fold (md5_step ?M) [0, 1, 2, 3, 4, 5, 6, 7, 8, 9, 10, 11, 12, 13, 14, 15]
      (0x67452301, 0xefcdab89, 0x98badcfe, 0x10325476) = (0x715ff408, 0x2d8b8334, 0x715d8a20, 0x14cbf5f8)"
    by (simp add: md5_step_masked md5_K_def md5_s_def rotl_def)
  have F2: "fold (md5_step ?M) [16, 17, 18, 19, 20, 21, 22, 23, 24, 25, 26, 27, 28, 29, 30, 31]
      (0x715ff408, 0x2d8b8334, 0x715d8a20, 0x14cbf5f8) = (0x58dd88c2, 0x8f25d190, 0x9f30104a, 0x539b9c53)"
    by (simp add: md5_step_masked md5_K_def md5_s_def rotl_def)
  have F3: "fold (md5_step ?M) [32, 33, 34, 35, 36, 37, 38, 39, 40, 41, 42, 43, 44, 45, 46, 47]
      (0x58dd88c2, 0x8f25d190, 0x9f30104a, 0x539b9c53) = (0x32958a0a, 0x163e312a, 0xb8379d04, 0x4bd07f3f)"
    by (simp add: md5_step_masked md5_K_def md5_s_def rotl_def)
  have F4: "fold (md5_step ?M) [48, 49, 50, 51, 52, 53, 54, 55, 56, 57, 58, 59, 60, 61, 62, 63]
      (0x32958a0a, 0x163e312a, 0xb8379d04, 0x4bd07f3f) = (0xeb137023, 0x40c62c41, 0x914bff56, 0x10936990)"
    by (simp add: md5_step_masked md5_K_def md5_s_def rotl_def)
  show ?thesis
    unfolding md5_block_tuple M upt_0_64 fold_append comp_apply F1 F2 F3 F4 by simp
qed

lemma md5_block_a2:
  "md5_block (0x52589324, 0x3093d7ca, 0x2a06dc54, 0x20c5be06)
     [0xd8, 0x82, 0x3e, 0x31, 0x56, 0x34, 0x8f, 0x5b, 0xae, 0x6d, 0xac, 0xd4, 0x36, 0xc9, 0x19, 0xc6,
      0xdd, 0x53, 0xe2, 0xb4, 0x87, 0xda, 0x03, 0xfd, 0x02, 0x39, 0x63, 0x06, 0xd2, 0x48, 0xcd, 0xa0,
      0xe9, 0x9f, 0x33, 0x42, 0x0f, 0x57, 0x7e, 0xe8, 0xce, 0x54, 0xb6, 0x70, 0x80, 0xa8, 0x0d, 0x1e,
      0xc6, 0x98, 0x21, 0xbc, 0xb6, 0xa8, 0x83, 0x93, 0x96, 0xf9, 0x65, 0x2b, 0x6f, 0xf7, 0x2a, 0x70]
   = (0x8d5e7019, 0x61804e08, 0x715d6b58, 0x6324c015)"
proof -
  let ?M = "[0x313e82d8, 0x5b8f3456, 0xd4ac6dae, 0xc619c936, 0xb4e253dd, 0xfd03da87, 0x06633902, 0xa0cd48d2, 0x42339fe9, 0xe87e570f, 0x70b654ce, 0x1e0da880, 0xbc2198c6, 0x9383a8b6, 0x2b65f996, 0x702af76f]"
  have M: "map le_word (chunks_of 4
     [0xd8, 0x82, 0x3e, 0x31, 0x56, 0x34, 0x8f, 0x5b, 0xae, 0x6d, 0xac, 0xd4, 0x36, 0xc9, 0x19, 0xc6,
      0xdd, 0x53, 0xe2, 0xb4, 0x87, 0xda, 0x03, 0xfd, 0x02, 0x39, 0x63, 0x06, 0xd2, 0x48, 0xcd, 0xa0,
      0xe9, 0x9f, 0x33, 0x42, 0x0f, 0x57, 0x7e, 0xe8, 0xce, 0x54, 0xb6, 0x70, 0x80, 0xa8, 0x0d, 0x1e,
      0xc6, 0x98, 0x21, 0xbc, 0xb6, 0xa8, 0x83, 0x93, 0x96, 0xf9, 0x65, 0x2b, 0x6f, 0xf7, 0x2a, 0x70])
    = ?M"
    by (simp add: chunks_of_Cons chunks_of_Nil)
  have F1: "fold (md5_step ?M) [0, 1, 2, 3, 4, 5, 6, 7, 8, 9, 10, 11, 12, 13, 14, 15]
      (0x52589324, 0x3093d7ca, 0x2a06dc54, 0x20c5be06) = (0x3f1ff45d, 0x612bbbd5, 0x7dc41b11, 0x40fbf2ff)"
    by (simp add: md5_step_masked md5_K_def md5_s_def rotl_def)
  have F2: "fold (md5_step ?M) [16, 17, 18, 19, 20, 21, 22, 23, 24, 25, 26, 27, 28, 29, 30, 31]
      (0x3f1ff45d, 0x612bbbd5, 0x7dc41b11, 0x40fbf2ff) = (0x82f21f91, 0x0839b297, 0x644e3eb8, 0x2ea5ed6f)"
    by (simp add: md5_step_masked md5_K_def md5_s_def rotl_def)
  have F3: "fold (md5_step ?M) [32, 33, 34, 35, 36, 37, 38, 39, 40, 41, 42, 43, 44, 45, 46, 47]
      (0x82f21f91, 0x0839b297, 0x644e3eb8, 0x2ea5ed6f) = (0xc3b50242, 0x03095eae, 0x33f7b4e6, 0x70ae9f1e)"
    by (simp add: md5_step_masked md5_K_def md5_s_def rotl_def)
  have F4: "fold (md5_step ?M) [48, 49, 50, 51, 52, 53, 54, 55, 56, 57, 58, 59, 60, 61, 62, 63]
      (0xc3b50242, 0x03095eae, 0x33f7b4e6, 0x70ae9f1e) = (0x3b05dcf5, 0x30ec763e, 0x47568f04, 0x425f020f)"
    by (simp add: md5_step_masked md5_K_def md5_s_def rotl_def)
  show ?thesis
    unfolding md5_block_tuple M upt_0_64 fold_append comp_apply F1 F2 F3 F4 by simp
qed

lemma md5_block_a3:
  "md5_block (0x8d5e7019, 0x61804e08, 0x715d6b58, 0x6324c015)
     [0x80, 0x00, 0x00, 0x00, 0x00, 0x00, 0x00, 0x00, 0x00, 0x00, 0x00, 0x00, 0x00, 0x00, 0x00, 0x00,
      0x00, 0x00, 0x00, 0x00, 0x00, 0x00, 0x00, 0x00, 0x00, 0x00, 0x00, 0x00, 0x00, 0x00, 0x00, 0x00,
      0x00, 0x00, 0x00, 0x00, 0x00, 0x00, 0x00, 0x00, 0x00, 0x00, 0x00, 0x00, 0x00, 0x00, 0x00, 0x00,
      0x00, 0x00, 0x00, 0x00, 0x00, 0x00, 0x00, 0x00, 0x00, 0x04, 0x00, 0x00, 0x00, 0x00, 0x00, 0x00]
   = (0x25400579, 0xa2b15f25, 0x22c44b6e, 0xb44ef5ae)"
proof -
  let ?M = "[0x00000080, 0x00000000, 0x00000000, 0x00000000, 0x00000000, 0x00000000, 0x00000000, 0x00000000, 0x00000000, 0x00000000, 0x00000000, 0x00000000, 0x00000000, 0x00000000, 0x00000400, 0x00000000]"
  have M: "map le_word (chunks_of 4
     [0x80, 0x00, 0x00, 0x00, 0x00, 0x00, 0x00, 0x00, 0x00, 0x00, 0x00, 0x00, 0x00, 0x00, 0x00, 0x00,
      0x00, 0x00, 0x00, 0x00, 0x00, 0x00, 0x00, 0x00, 0x00, 0x00, 0x00, 0x00, 0x00, 0x00, 0x00, 0x00,
      0x00, 0x00, 0x00, 0x00, 0x00, 0x00, 0x00, 0x00, 0x00, 0x00, 0x00, 0x00, 0x00, 0x00, 0x00, 0x00,
      0x00, 0x00, 0x00, 0x00, 0x00, 0x00, 0x00, 0x00, 0x00, 0x04, 0x00, 0x00, 0x00, 0x00, 0x00, 0x00])
    = ?M"
    by (simp add: chunks_of_Cons chunks_of_Nil)
  have F1: "fold (md5_step ?M) [0, 1, 2, 3, 4, 5, 6, 7, 8, 9, 10, 11, 12, 13, 14, 15]
      (0x8d5e7019, 0x61804e08, 0x715d6b58, 0x6324c015) = (0x0009f9e5, 0xe7cfa008, 0xad84b5c7, 0x7dd3b044)"
    by (simp add: md5_step_masked md5_K_def md5_s_def rotl_def)
  have F2: "fold (md5_step ?M) [16, 17, 18, 19, 20, 21, 22, 23, 24, 25, 26, 27, 28, 29, 30, 31]
      (0x0009f9e5, 0xe7cfa008, 0xad84b5c7, 0x7dd3b044) = (0x7df63c4b, 0x830eb7ee, 0x71c883fd, 0x67c7a9cc)"
    by (simp add: md5_step_masked md5_K_def md5_s_def rotl_def)
  have F3: "fold (md5_step ?M) [32, 33, 34, 35, 36, 37, 38, 39, 40, 41, 42, 43, 44, 45, 46, 47]
      (0x7df63c4b, 0x830eb7ee, 0x71c883fd, 0x67c7a9cc) = (0x899ff100, 0x2710e0ea, 0x781abf3c, 0xb42b8f7b)"
    by (simp add: md5_step_masked md5_K_def md5_s_def rotl_def)
  have F4: "fold (md5_step ?M) [48, 49, 50, 51, 52, 53, 54, 55, 56, 57, 58, 59, 60, 61, 62, 63]
      (0x899ff100, 0x2710e0ea, 0x781abf3c, 0xb42b8f7b) = (0x97e19560, 0x4131111d, 0xb166e016, 0x512a3599)"
    by (simp add: md5_step_masked md5_K_def md5_s_def rotl_def)
  show ?thesis
    unfolding md5_block_tuple M upt_0_64 fold_append comp_apply F1 F2 F3 F4 by simp
qed

lemma md5_block_b1:
  "md5_block (0x67452301, 0xefcdab89, 0x98badcfe, 0x10325476)
     [0xd1, 0x31, 0xdd, 0x02, 0xc5, 0xe6, 0xee, 0xc4, 0x69, 0x3d, 0x9a, 0x06, 0x98, 0xaf, 0xf9, 0x5c,
      0x2f, 0xca, 0xb5, 0x07, 0x12, 0x46, 0x7e, 0xab, 0x40, 0x04, 0x58, 0x3e, 0xb8, 0xfb, 0x7f, 0x89,
      0x55, 0xad, 0x34, 0x06, 0x09, 0xf4, 0xb3, 0x02, 0x83, 0xe4, 0x88, 0x83, 0x25, 0xf1, 0x41, 0x5a,
      0x08, 0x51, 0x25, 0xe8, 0xf7, 0xcd, 0xc9, 0x9f, 0xd9, 0x1d, 0xbd, 0x72, 0x80, 0x37, 0x3c, 0x5b]
   = (0xd2589324, 0xb293d7ca, 0xac06dc54, 0xa2c5be06)"
proof -
  let ?M = "[0x02dd31d1, 0xc4eee6c5, 0x069a3d69, 0x5cf9af98, 0x07b5ca2f, 0xab7e4612, 0x3e580440, 0x897ffbb8, 0x0634ad55, 0x02b3f409, 0x8388e483, 0x5a41f125, 0xe8255108, 0x9fc9cdf7, 0x72bd1dd9, 0x5b3c3780]"
  have M: "map le_word (chunks_of 4
     [0xd1, 0x31, 0xdd, 0x02, 0xc5, 0xe6, 0xee, 0xc4, 0x69, 0x3d, 0x9a, 0x06, 0x98, 0xaf, 0xf9, 0x5c,
      0x2f, 0xca, 0xb5, 0x07, 0x12, 0x46, 0x7e, 0xab, 0x40, 0x04, 0x58, 0x3e, 0xb8, 0xfb, 0x7f, 0x89,
      0x55, 0xad, 0x34, 0x06, 0x09, 0xf4, 0xb3, 0x02, 0x83, 0xe4, 0x88, 0x83, 0x25, 0xf1, 0x41, 0x5a,
      0x08, 0x51, 0x25, 0xe8, 0xf7, 0xcd, 0xc9, 0x9f, 0xd9, 0x1d, 0xbd, 0x72, 0x80, 0x37, 0x3c, 0x5b])
    = ?M"
    by (simp add: chunks_of_Cons chunks_of_Nil)
  have F1: "fold (md5_step ?M) [0, 1, 2, 3, 4, 5, 6, 7, 8, 9, 10, 11, 12, 13, 14, 15]
      (0x67452301, 0xefcdab89, 0x98badcfe, 0x10325476) = (0xf25ff408, 0x8d8b8334, 0xf15d0a28, 0x94cbf5f8)"
    by (simp add: md5_step_masked md5_K_def md5_s_def rotl_def)
  have F2: "fold (md5_step ?M) [16, 17, 18, 19, 20, 21, 22, 23, 24, 25, 26, 27, 28, 29, 30, 31]
      (0xf25ff408, 0x8d8b8334, 0xf15d0a28, 0x94cbf5f8) = (0x58dd88c2, 0x8f25d190, 0x9f30104a, 0x539b9c53)"
    by (simp add: md5_step_masked md5_K_def md5_s_def rotl_def)
  have F3: "fold (md5_step ?M) [32, 33, 34, 35, 36, 37, 38, 39, 40, 41, 42, 43, 44, 45, 46, 47]
      (0x58dd88c2, 0x8f25d190, 0x9f30104a, 0x539b9c53) = (0xb2958a0a, 0x963e312a, 0x38379d04, 0xcbd07f3f)"
    by (simp add: md5_step_masked md5_K_def md5_s_def rotl_def)
  have F4: "fold (md5_step ?M) [48, 49, 50, 51, 52, 53, 54, 55, 56, 57, 58, 59, 60, 61, 62, 63]
      (0xb2958a0a, 0x963e312a, 0x38379d04, 0xcbd07f3f) = (0x6b137023, 0xc2c62c41, 0x134bff56, 0x92936990)"
    by (simp add: md5_step_masked md5_K_def md5_s_def rotl_def)
  show ?thesis
    unfolding md5_block_tuple M upt_0_64 fold_append comp_apply F1 F2 F3 F4 by simp
qed

lemma md5_block_b2:
  "md5_block (0xd2589324, 0xb293d7ca, 0xac06dc54, 0xa2c5be06)
     [0xd8, 0x82, 0x3e, 0x31, 0x56, 0x34, 0x8f, 0x5b, 0xae, 0x6d, 0xac, 0xd4, 0x36, 0xc9, 0x19, 0xc6,
      0xdd, 0x53, 0xe2, 0x34, 0x87, 0xda, 0x03, 0xfd, 0x02, 0x39, 0x63, 0x06, 0xd2, 0x48, 0xcd, 0xa0,
      0xe9, 0x9f, 0x33, 0x42, 0x0f, 0x57, 0x7e, 0xe8, 0xce, 0x54, 0xb6, 0x70, 0x80, 0x28, 0x0d, 0x1e,
      0xc6, 0x98, 0x21, 0xbc, 0xb6, 0xa8, 0x83, 0x93, 0x96, 0xf9, 0x65, 0xab, 0x6f, 0xf7, 0x2a, 0x70]
   = (0x8d5e7019, 0x61804e08, 0x715d6b58, 0x6324c015)"
proof -
  let ?M = "[0x313e82d8, 0x5b8f3456, 0xd4ac6dae, 0xc619c936, 0x34e253dd, 0xfd03da87, 0x06633902, 0xa0cd48d2, 0x42339fe9, 0xe87e570f, 0x70b654ce, 0x1e0d2880, 0xbc2198c6, 0x9383a8b6, 0xab65f996, 0x702af76f]"
  have M: "map le_word (chunks_of 4
     [0xd8, 0x82, 0x3e, 0x31, 0x56, 0x34, 0x8f, 0x5b, 0xae, 0x6d, 0xac, 0xd4, 0x36, 0xc9, 0x19, 0xc6,
      0xdd, 0x53, 0xe2, 0x34, 0x87, 0xda, 0x03, 0xfd, 0x02, 0x39, 0x63, 0x06, 0xd2, 0x48, 0xcd, 0xa0,
      0xe9, 0x9f, 0x33, 0x42, 0x0f, 0x57, 0x7e, 0xe8, 0xce, 0x54, 0xb6, 0x70, 0x80, 0x28, 0x0d, 0x1e,
      0xc6, 0x98, 0x21, 0xbc, 0xb6, 0xa8, 0x83, 0x93, 0x96, 0xf9, 0x65, 0xab, 0x6f, 0xf7, 0x2a, 0x70])
    = ?M"
    by (simp add: chunks_of_Cons chunks_of_Nil)
  have F1: "fold (md5_step ?M) [0, 1, 2, 3, 4, 5, 6, 7, 8, 9, 10, 11, 12, 13, 14, 15]
      (0xd2589324, 0xb293d7ca, 0xac06dc54, 0xa2c5be06) = (0xc01ff45d, 0xc12bbbd5, 0xfdc49b19, 0xc0fbf2ff)"
    by (simp add: md5_step_masked md5_K_def md5_s_def rotl_def)
  have F2: "fold (md5_step ?M) [16, 17, 18, 19, 20, 21, 22, 23, 24, 25, 26, 27, 28, 29, 30, 31]
      (0xc01ff45d, 0xc12bbbd5, 0xfdc49b19, 0xc0fbf2ff) = (0x82f21f91, 0x0839b297, 0x644e3eb8, 0x2ea5ed6f)"
    by (simp add: md5_step_masked md5_K_def md5_s_def rotl_def)
  have F3: "fold (md5_step ?M) [32, 33, 34, 35, 36, 37, 38, 39, 40, 41, 42, 43, 44, 45, 46, 47]
      (0x82f21f91, 0x0839b297, 0x644e3eb8, 0x2ea5ed6f) = (0x43b50242, 0x83095eae, 0xb3f7b4e6, 0xf0ae9f1e)"
    by (simp add: md5_step_masked md5_K_def md5_s_def rotl_def)
  have F4: "fold (md5_step ?M) [48, 49, 50, 51, 52, 53, 54, 55, 56, 57, 58, 59, 60, 61, 62, 63]
      (0x43b50242, 0x83095eae, 0xb3f7b4e6, 0xf0ae9f1e) = (0xbb05dcf5, 0xaeec763e, 0xc5568f04, 0xc05f020f)"
    by (simp add: md5_step_masked md5_K_def md5_s_def rotl_def)
  show ?thesis
    unfolding md5_block_tuple M upt_0_64 fold_append comp_apply F1 F2 F3 F4 by simp
qed

lemma md5_block_b3:
  "md5_block (0x8d5e7019, 0x61804e08, 0x715d6b58, 0x6324c015)
     [0x80, 0x00, 0x00, 0x00, 0x00, 0x00, 0x00, 0x00, 0x00, 0x00, 0x00, 0x00, 0x00, 0x00, 0x00, 0x00,
      0x00, 0x00, 0x00, 0x00, 0x00, 0x00, 0x00, 0x00, 0x00, 0x00, 0x00, 0x00, 0x00, 0x00, 0x00, 0x00,
      0x00, 0x00, 0x00, 0x00, 0x00, 0x00, 0x00, 0x00, 0x00, 0x00, 0x00, 0x00, 0x00, 0x00, 0x00, 0x00,
      0x00, 0x00, 0x00, 0x00, 0x00, 0x00, 0x00, 0x00, 0x00, 0x04, 0x00, 0x00, 0x00, 0x00, 0x00, 0x00]
   = (0x25400579, 0xa2b15f25, 0x22c44b6e, 0xb44ef5ae)"
proof -
  let ?M = "[0x00000080, 0x00000000, 0x00000000, 0x00000000, 0x00000000, 0x00000000, 0x00000000, 0x00000000, 0x00000000, 0x00000000, 0x00000000, 0x00000000, 0x00000000, 0x00000000, 0x00000400, 0x00000000]"
  have M: "map le_word (chunks_of 4
     [0x80, 0x00, 0x00, 0x00, 0x00, 0x00, 0x00, 0x00, 0x00, 0x00, 0x00, 0x00, 0x00, 0x00, 0x00, 0x00,
      0x00, 0x00, 0x00, 0x00, 0x00, 0x00, 0x00, 0x00, 0x00, 0x00, 0x00, 0x00, 0x00, 0x00, 0x00, 0x00,
      0x00, 0x00, 0x00, 0x00, 0x00, 0x00, 0x00, 0x00, 0x00, 0x00, 0x00, 0x00, 0x00, 0x00, 0x00, 0x00,
      0x00, 0x00, 0x00, 0x00, 0x00, 0x00, 0x00, 0x00, 0x00, 0x04, 0x00, 0x00, 0x00, 0x00, 0x00, 0x00])
    = ?M"
    by (simp add: chunks_of_Cons chunks_of_Nil)
  have F1: "fold (md5_step ?M) [0, 1, 2, 3, 4, 5, 6, 7, 8, 9, 10, 11, 12, 13, 14, 15]
      (0x8d5e7019, 0x61804e08, 0x715d6b58, 0x6324c015) = (0x0009f9e5, 0xe7cfa008, 0xad84b5c7, 0x7dd3b044)"
    by (simp add: md5_step_masked md5_K_def md5_s_def rotl_def)
  have F2: "fold (md5_step ?M) [16, 17, 18, 19, 20, 21, 22, 23, 24, 25, 26, 27, 28, 29, 30, 31]
      (0x0009f9e5, 0xe7cfa008, 0xad84b5c7, 0x7dd3b044) = (0x7df63c4b, 0x830eb7ee, 0x71c883fd, 0x67c7a9cc)"
    by (simp add: md5_step_masked md5_K_def md5_s_def rotl_def)
  have F3: "fold (md5_step ?M) [32, 33, 34, 35, 36, 37, 38, 39, 40, 41, 42, 43, 44, 45, 46, 47]
      (0x7df63c4b, 0x830eb7ee, 0x71c883fd, 0x67c7a9cc) = (0x899ff100, 0x2710e0ea, 0x781abf3c, 0xb42b8f7b)"
    by (simp add: md5_step_masked md5_K_def md5_s_def rotl_def)
  have F4: "fold (md5_step ?M) [48, 49, 50, 51, 52, 53, 54, 55, 56, 57, 58, 59, 60, 61, 62, 63]
      (0x899ff100, 0x2710e0ea, 0x781abf3c, 0xb42b8f7b) = (0x97e19560, 0x4131111d, 0xb166e016, 0x512a3599)"
    by (simp add: md5_step_masked md5_K_def md5_s_def rotl_def)
  show ?thesis
    unfolding md5_block_tuple M upt_0_64 fold_append comp_apply F1 F2 F3 F4 by simp
qed

lemma length_collision_a: "length collision_a = 128"
  by (simp add: collision_a_def)

lemma md5_pad_collision_a:
  "md5_pad collision_a =
     [0xd1, 0x31, 0xdd, 0x02, 0xc5, 0xe6, 0xee, 0xc4, 0x69, 0x3d, 0x9a, 0x06, 0x98, 0xaf, 0xf9, 0x5c,
      0x2f, 0xca, 0xb5, 0x87, 0x12, 0x46, 0x7e, 0xab, 0x40, 0x04, 0x58, 0x3e, 0xb8, 0xfb, 0x7f, 0x89,
      0x55, 0xad, 0x34, 0x06, 0x09, 0xf4, 0xb3, 0x02, 0x83, 0xe4, 0x88, 0x83, 0x25, 0x71, 0x41, 0x5a,
      0x08, 0x51, 0x25, 0xe8, 0xf7, 0xcd, 0xc9, 0x9f, 0xd9, 0x1d, 0xbd, 0xf2, 0x80, 0x37, 0x3c, 0x5b,
      0xd8, 0x82, 0x3e, 0x31, 0x56, 0x34, 0x8f, 0x5b, 0xae, 0x6d, 0xac, 0xd4, 0x36, 0xc9, 0x19, 0xc6,
      0xdd, 0x53, 0xe2, 0xb4, 0x87, 0xda, 0x03, 0xfd, 0x02, 0x39, 0x63, 0x06, 0xd2, 0x48, 0xcd, 0xa0,
      0xe9, 0x9f, 0x33, 0x42, 0x0f, 0x57, 0x7e, 0xe8, 0xce, 0x54, 0xb6, 0x70, 0x80, 0xa8, 0x0d, 0x1e,
      0xc6, 0x98, 0x21, 0xbc, 0xb6, 0xa8, 0x83, 0x93, 0x96, 0xf9, 0x65, 0x2b, 0x6f, 0xf7, 0x2a, 0x70,
      0x80, 0x00, 0x00, 0x00, 0x00, 0x00, 0x00, 0x00, 0x00, 0x00, 0x00, 0x00, 0x00, 0x00, 0x00, 0x00,
      0x00, 0x00, 0x00, 0x00, 0x00, 0x00, 0x00, 0x00, 0x00, 0x00, 0x00, 0x00, 0x00, 0x00, 0x00, 0x00,
      0x00, 0x00, 0x00, 0x00, 0x00, 0x00, 0x00, 0x00, 0x00, 0x00, 0x00, 0x00, 0x00, 0x00, 0x00, 0x00,
      0x00, 0x00, 0x00, 0x00, 0x00, 0x00, 0x00, 0x00, 0x00, 0x04, 0x00, 0x00, 0x00, 0x00, 0x00, 0x00]"
  unfolding md5_pad_def length_collision_a
  by (simp add: collision_a_def le_bytes_def upt_0_8 replicate_55)

lemma md5_chunks_collision_a:
  "chunks_of 64 (md5_pad collision_a) =
     [[0xd1, 0x31, 0xdd, 0x02, 0xc5, 0xe6, 0xee, 0xc4, 0x69, 0x3d, 0x9a, 0x06, 0x98, 0xaf, 0xf9, 0x5c,
       0x2f, 0xca, 0xb5, 0x87, 0x12, 0x46, 0x7e, 0xab, 0x40, 0x04, 0x58, 0x3e, 0xb8, 0xfb, 0x7f, 0x89,
       0x55, 0xad, 0x34, 0x06, 0x09, 0xf4, 0xb3, 0x02, 0x83, 0xe4, 0x88, 0x83, 0x25, 0x71, 0x41, 0x5a,
       0x08, 0x51, 0x25, 0xe8, 0xf7, 0xcd, 0xc9, 0x9f, 0xd9, 0x1d, 0xbd, 0xf2, 0x80, 0x37, 0x3c, 0x5b],
      [0xd8, 0x82, 0x3e, 0x31, 0x56, 0x34, 0x8f, 0x5b, 0xae, 0x6d, 0xac, 0xd4, 0x36, 0xc9, 0x19, 0xc6,
       0xdd, 0x53, 0xe2, 0xb4, 0x87, 0xda, 0x03, 0xfd, 0x02, 0x39, 0x63, 0x06, 0xd2, 0x48, 0xcd, 0xa0,
       0xe9, 0x9f, 0x33, 0x42, 0x0f, 0x57, 0x7e, 0xe8, 0xce, 0x54, 0xb6, 0x70, 0x80, 0xa8, 0x0d, 0x1e,
       0xc6, 0x98, 0x21, 0xbc, 0xb6, 0xa8, 0x83, 0x93, 0x96, 0xf9, 0x65, 0x2b, 0x6f, 0xf7, 0x2a, 0x70],
      [0x80, 0x00, 0x00, 0x00, 0x00, 0x00, 0x00, 0x00, 0x00, 0x00, 0x00, 0x00, 0x00, 0x00, 0x00, 0x00,
       0x00, 0x00, 0x00, 0x00, 0x00, 0x00, 0x00, 0x00, 0x00, 0x00, 0x00, 0x00, 0x00, 0x00, 0x00, 0x00,
       0x00, 0x00, 0x00, 0x00, 0x00, 0x00, 0x00, 0x00, 0x00, 0x00, 0x00, 0x00, 0x00, 0x00, 0x00, 0x00,
       0x00, 0x00, 0x00, 0x00, 0x00, 0x00, 0x00, 0x00, 0x00, 0x04, 0x00, 0x00, 0x00, 0x00, 0x00, 0x00]]"
  unfolding md5_pad_collision_a
  by (simp add: chunks_of_Cons chunks_of_Nil)

lemma length_collision_b: "length collision_b = 128"
  by (simp add: collision_b_def)

lemma md5_pad_collision_b:
  "md5_pad collision_b =
     [0xd1, 0x31, 0xdd, 0x02, 0xc5, 0xe6, 0xee, 0xc4, 0x69, 0x3d, 0x9a, 0x06, 0x98, 0xaf, 0xf9, 0x5c,
      0x2f, 0xca, 0xb5, 0x07, 0x12, 0x46, 0x7e, 0xab, 0x40, 0x04, 0x58, 0x3e, 0xb8, 0xfb, 0x7f, 0x89,
      0x55, 0xad, 0x34, 0x06, 0x09, 0xf4, 0xb3, 0x02, 0x83, 0xe4, 0x88, 0x83, 0x25, 0xf1, 0x41, 0x5a,
      0x08, 0x51, 0x25, 0xe8, 0xf7, 0xcd, 0xc9, 0x9f, 0xd9, 0x1d, 0xbd, 0x72, 0x80, 0x37, 0x3c, 0x5b,
      0xd8, 0x82, 0x3e, 0x31, 0x56, 0x34, 0x8f, 0x5b, 0xae, 0x6d, 0xac, 0xd4, 0x36, 0xc9, 0x19, 0xc6,
      0xdd, 0x53, 0xe2, 0x34, 0x87, 0xda, 0x03, 0xfd, 0x02, 0x39, 0x63, 0x06, 0xd2, 0x48, 0xcd, 0xa0,
      0xe9, 0x9f, 0x33, 0x42, 0x0f, 0x57, 0x7e, 0xe8, 0xce, 0x54, 0xb6, 0x70, 0x80, 0x28, 0x0d, 0x1e,
      0xc6, 0x98, 0x21, 0xbc, 0xb6, 0xa8, 0x83, 0x93, 0x96, 0xf9, 0x65, 0xab, 0x6f, 0xf7, 0x2a, 0x70,
      0x80, 0x00, 0x00, 0x00, 0x00, 0x00, 0x00, 0x00, 0x00, 0x00, 0x00, 0x00, 0x00, 0x00, 0x00, 0x00,
      0x00, 0x00, 0x00, 0x00, 0x00, 0x00, 0x00, 0x00, 0x00, 0x00, 0x00, 0x00, 0x00, 0x00, 0x00, 0x00,
      0x00, 0x00, 0x00, 0x00, 0x00, 0x00, 0x00, 0x00, 0x00, 0x00, 0x00, 0x00, 0x00, 0x00, 0x00, 0x00,
      0x00, 0x00, 0x00, 0x00, 0x00, 0x00, 0x00, 0x00, 0x00, 0x04, 0x00, 0x00, 0x00, 0x00, 0x00, 0x00]"
  unfolding md5_pad_def length_collision_b
  by (simp add: collision_b_def le_bytes_def upt_0_8 replicate_55)

lemma md5_chunks_collision_b:
  "chunks_of 64 (md5_pad collision_b) =
     [[0xd1, 0x31, 0xdd, 0x02, 0xc5, 0xe6, 0xee, 0xc4, 0x69, 0x3d, 0x9a, 0x06, 0x98, 0xaf, 0xf9, 0x5c,
       0x2f, 0xca, 0xb5, 0x07, 0x12, 0x46, 0x7e, 0xab, 0x40, 0x04, 0x58, 0x3e, 0xb8, 0xfb, 0x7f, 0x89,
       0x55, 0xad, 0x34, 0x06, 0x09, 0xf4, 0xb3, 0x02, 0x83, 0xe4, 0x88, 0x83, 0x25, 0xf1, 0x41, 0x5a,
       0x08, 0x51, 0x25, 0xe8, 0xf7, 0xcd, 0xc9, 0x9f, 0xd9, 0x1d, 0xbd, 0x72, 0x80, 0x37, 0x3c, 0x5b],
      [0xd8, 0x82, 0x3e, 0x31, 0x56, 0x34, 0x8f, 0x5b, 0xae, 0x6d, 0xac, 0xd4, 0x36, 0xc9, 0x19, 0xc6,
       0xdd, 0x53, 0xe2, 0x34, 0x87, 0xda, 0x03, 0xfd, 0x02, 0x39, 0x63, 0x06, 0xd2, 0x48, 0xcd, 0xa0,
       0xe9, 0x9f, 0x33, 0x42, 0x0f, 0x57, 0x7e, 0xe8, 0xce, 0x54, 0xb6, 0x70, 0x80, 0x28, 0x0d, 0x1e,
       0xc6, 0x98, 0x21, 0xbc, 0xb6, 0xa8, 0x83, 0x93, 0x96, 0xf9, 0x65, 0xab, 0x6f, 0xf7, 0x2a, 0x70],
      [0x80, 0x00, 0x00, 0x00, 0x00, 0x00, 0x00, 0x00, 0x00, 0x00, 0x00, 0x00, 0x00, 0x00, 0x00, 0x00,
       0x00, 0x00, 0x00, 0x00, 0x00, 0x00, 0x00, 0x00, 0x00, 0x00, 0x00, 0x00, 0x00, 0x00, 0x00, 0x00,
       0x00, 0x00, 0x00, 0x00, 0x00, 0x00, 0x00, 0x00, 0x00, 0x00, 0x00, 0x00, 0x00, 0x00, 0x00, 0x00,
       0x00, 0x00, 0x00, 0x00, 0x00, 0x00, 0x00, 0x00, 0x00, 0x04, 0x00, 0x00, 0x00, 0x00, 0x00, 0x00]]"
  unfolding md5_pad_collision_b
  by (simp add: chunks_of_Cons chunks_of_Nil)

lemma md5_collision_a:
  "md5 collision_a = [0x79, 0x05, 0x40, 0x25, 0x25, 0x5f, 0xb1, 0xa2, 0x6e, 0x4b, 0xc4, 0x22, 0xae, 0xf5, 0x4e, 0xb4]"
  unfolding md5_def md5_chunks_collision_a md5_init_def
  by (simp add: md5_block_a1 md5_block_a2 md5_block_a3 le_bytes_def upt_0_4)

lemma md5_collision_b:
  "md5 collision_b = [0x79, 0x05, 0x40, 0x25, 0x25, 0x5f, 0xb1, 0xa2, 0x6e, 0x4b, 0xc4, 0x22, 0xae, 0xf5, 0x4e, 0xb4]"
  unfolding md5_def md5_chunks_collision_b md5_init_def
  by (simp add: md5_block_b1 md5_block_b2 md5_block_b3 le_bytes_def upt_0_4)

lemma md5_block_original1:
  "md5_block (0x67452301, 0xefcdab89, 0x98badcfe, 0x10325476)
     [0x00, 0x05, 0x07, 0x80, 0x00, 0x00, 0x00, 0x00, 0x00, 0x00, 0x00, 0x00, 0x00, 0x00, 0x00, 0x00,
      0x00, 0x00, 0x00, 0x00, 0x00, 0x00, 0x00, 0x00, 0x00, 0x00, 0x00, 0x00, 0x00, 0x00, 0x00, 0x00,
      0x00, 0x00, 0x00, 0x00, 0x00, 0x00, 0x00, 0x00, 0x00, 0x00, 0x00, 0x00, 0x00, 0x00, 0x00, 0x00,
      0x00, 0x00, 0x00, 0x00, 0x00, 0x00, 0x00, 0x00, 0x18, 0x00, 0x00, 0x00, 0x00, 0x00, 0x00, 0x00]
   = (0x1037bffd, 0xf16b4303, 0x280836e3, 0xffadc092)"
proof -
  let ?M = "[0x80070500, 0x00000000, 0x00000000, 0x00000000, 0x00000000, 0x00000000, 0x00000000, 0x00000000, 0x00000000, 0x00000000, 0x00000000, 0x00000000, 0x00000000, 0x00000000, 0x00000018, 0x00000000]"
  have M: "map le_word (chunks_of 4
     [0x00, 0x05, 0x07, 0x80, 0x00, 0x00, 0x00, 0x00, 0x00, 0x00, 0x00, 0x00, 0x00, 0x00, 0x00, 0x00,
      0x00, 0x00, 0x00, 0x00, 0x00, 0x00, 0x00, 0x00, 0x00, 0x00, 0x00, 0x00, 0x00, 0x00, 0x00, 0x00,
      0x00, 0x00, 0x00, 0x00, 0x00, 0x00, 0x00, 0x00, 0x00, 0x00, 0x00, 0x00, 0x00, 0x00, 0x00, 0x00,
      0x00, 0x00, 0x00, 0x00, 0x00, 0x00, 0x00, 0x00, 0x18, 0x00, 0x00, 0x00, 0x00, 0x00, 0x00, 0x00])
    = ?M"
    by (simp add: chunks_of_Cons chunks_of_Nil)
  have F1: "fold (md5_step ?M) [0, 1, 2, 3, 4, 5, 6, 7, 8, 9, 10, 11, 12, 13, 14, 15]
      (0x67452301, 0xefcdab89, 0x98badcfe, 0x10325476) = (0xc22065c2, 0x564d7b0f, 0xf6f5e407, 0x2b36e080)"
    by (simp add: md5_step_masked md5_K_def md5_s_def rotl_def)
  have F2: "fold (md5_step ?M) [16, 17, 18, 19, 20, 21, 22, 23, 24, 25, 26, 27, 28, 29, 30, 31]
      (0xc22065c2, 0x564d7b0f, 0xf6f5e407, 0x2b36e080) = (0xa82bc45f, 0x36039f2e, 0x26ea145a, 0xa271f02c)"
    by (simp add: md5_step_masked md5_K_def md5_s_def rotl_def)
  have F3: "fold (md5_step ?M) [32, 33, 34, 35, 36, 37, 38, 39, 40, 41, 42, 43, 44, 45, 46, 47]
      (0xa82bc45f, 0x36039f2e, 0x26ea145a, 0xa271f02c) = (0x4e1398da, 0xa2a32e16, 0x57a77a00, 0x2aebc143)"
    by (simp add: md5_step_masked md5_K_def md5_s_def rotl_def)
  have F4: "fold (md5_step ?M) [48, 49, 50, 51, 52, 53, 54, 55, 56, 57, 58, 59, 60, 61, 62, 63]
      (0x4e1398da, 0xa2a32e16, 0x57a77a00, 0x2aebc143) = (0xa8f29cfc, 0x019d977a, 0x8f4d59e5, 0xef7b6c1c)"
    by (simp add: md5_step_masked md5_K_def md5_s_def rotl_def)
  show ?thesis
    unfolding md5_block_tuple M upt_0_64 fold_append comp_apply F1 F2 F3 F4 by simp
qed

lemma md5_original:
  "md5 [0, 5, 7] = [0xfd, 0xbf, 0x37, 0x10, 0x03, 0x43, 0x6b, 0xf1, 0xe3, 0x36, 0x08, 0x28, 0x92, 0xc0, 0xad, 0xff]"
proof -
  have R: "replicate 52 (0 :: 8 word) = [0, 0, 0, 0, 0, 0, 0, 0, 0, 0, 0, 0, 0, 0, 0, 0, 0, 0, 0, 0, 0, 0, 0, 0, 0, 0, 0, 0, 0, 0, 0, 0, 0, 0, 0, 0, 0, 0, 0, 0, 0, 0, 0, 0, 0, 0, 0, 0, 0, 0, 0, 0]"
    by (simp add: numeral_eq_Suc)
  have P: "md5_pad [0, 5, 7] =
     [0x00, 0x05, 0x07, 0x80, 0x00, 0x00, 0x00, 0x00, 0x00, 0x00, 0x00, 0x00, 0x00, 0x00, 0x00, 0x00,
      0x00, 0x00, 0x00, 0x00, 0x00, 0x00, 0x00, 0x00, 0x00, 0x00, 0x00, 0x00, 0x00, 0x00, 0x00, 0x00,
      0x00, 0x00, 0x00, 0x00, 0x00, 0x00, 0x00, 0x00, 0x00, 0x00, 0x00, 0x00, 0x00, 0x00, 0x00, 0x00,
      0x00, 0x00, 0x00, 0x00, 0x00, 0x00, 0x00, 0x00, 0x18, 0x00, 0x00, 0x00, 0x00, 0x00, 0x00, 0x00]"
    by (simp add: md5_pad_def le_bytes_def upt_0_8 R)
  have C: "chunks_of 64 (md5_pad [0, 5, 7]) =
     [[0x00, 0x05, 0x07, 0x80, 0x00, 0x00, 0x00, 0x00, 0x00, 0x00, 0x00, 0x00, 0x00, 0x00, 0x00, 0x00,
       0x00, 0x00, 0x00, 0x00, 0x00, 0x00, 0x00, 0x00, 0x00, 0x00, 0x00, 0x00, 0x00, 0x00, 0x00, 0x00,
       0x00, 0x00, 0x00, 0x00, 0x00, 0x00, 0x00, 0x00, 0x00, 0x00, 0x00, 0x00, 0x00, 0x00, 0x00, 0x00,
       0x00, 0x00, 0x00, 0x00, 0x00, 0x00, 0x00, 0x00, 0x18, 0x00, 0x00, 0x00, 0x00, 0x00, 0x00, 0x00]]"
    unfolding P by (simp add: chunks_of_Cons chunks_of_Nil)
  show ?thesis
    unfolding md5_def C md5_init_def
    by (simp add: md5_block_original1 le_bytes_def upt_0_4)
qed

lemma md5_block_zip1:
  "md5_block (0x67452301, 0xefcdab89, 0x98badcfe, 0x10325476)
     [0x01, 0x05, 0x07, 0x80, 0x00, 0x00, 0x00, 0x00, 0x00, 0x00, 0x00, 0x00, 0x00, 0x00, 0x00, 0x00,
      0x00, 0x00, 0x00, 0x00, 0x00, 0x00, 0x00, 0x00, 0x00, 0x00, 0x00, 0x00, 0x00, 0x00, 0x00, 0x00,
      0x00, 0x00, 0x00, 0x00, 0x00, 0x00, 0x00, 0x00, 0x00, 0x00, 0x00, 0x00, 0x00, 0x00, 0x00, 0x00,
      0x00, 0x00, 0x00, 0x00, 0x00, 0x00, 0x00, 0x00, 0x18, 0x00, 0x00, 0x00, 0x00, 0x00, 0x00, 0x00]
   = (0xccdda5c3, 0x3d0bc6ec, 0xdaaa53fb, 0x3c9dc8f6)"
proof -
  let ?M = "[0x80070501, 0x00000000, 0x00000000, 0x00000000, 0x00000000, 0x00000000, 0x00000000, 0x00000000, 0x00000000, 0x00000000, 0x00000000, 0x00000000, 0x00000000, 0x00000000, 0x00000018, 0x00000000]"
  have M: "map le_word (chunks_of 4
     [0x01, 0x05, 0x07, 0x80, 0x00, 0x00, 0x00, 0x00, 0x00, 0x00, 0x00, 0x00, 0x00, 0x00, 0x00, 0x00,
      0x00, 0x00, 0x00, 0x00, 0x00, 0x00, 0x00, 0x00, 0x00, 0x00, 0x00, 0x00, 0x00, 0x00, 0x00, 0x00,
      0x00, 0x00, 0x00, 0x00, 0x00, 0x00, 0x00, 0x00, 0x00, 0x00, 0x00, 0x00, 0x00, 0x00, 0x00, 0x00,
      0x00, 0x00, 0x00, 0x00, 0x00, 0x00, 0x00, 0x00, 0x18, 0x00, 0x00, 0x00, 0x00, 0x00, 0x00, 0x00])
    = ?M"
    by (simp add: chunks_of_Cons chunks_of_Nil)
  have F1: "fold (md5_step ?M) [0, 1, 2, 3, 4, 5, 6, 7, 8, 9, 10, 11, 12, 13, 14, 15]
      (0x67452301, 0xefcdab89, 0x98badcfe, 0x10325476) = (0x23d4668e, 0x76e46ca1, 0x5c860ff8, 0x956e47dc)"
    by (simp add: md5_step_masked md5_K_def md5_s_def rotl_def)
  have F2: "fold (md5_step ?M) [16, 17, 18, 19, 20, 21, 22, 23, 24, 25, 26, 27, 28, 29, 30, 31]
      (0x23d4668e, 0x76e46ca1, 0x5c860ff8, 0x956e47dc) = (0xb477ad53, 0xcb064285, 0xbe15f872, 0xa26bf9c6)"
    by (simp add: md5_step_masked md5_K_def md5_s_def rotl_def)
  have F3: "fold (md5_step ?M) [32, 33, 34, 35, 36, 37, 38, 39, 40, 41, 42, 43, 44, 45, 46, 47]
      (0xb477ad53, 0xcb064285, 0xbe15f872, 0xa26bf9c6) = (0x2c7d57f5, 0xbb69e31d, 0x707adc3a, 0xeb385147)"
    by (simp add: md5_step_masked md5_K_def md5_s_def rotl_def)
  have F4: "fold (md5_step ?M) [48, 49, 50, 51, 52, 53, 54, 55, 56, 57, 58, 59, 60, 61, 62, 63]
      (0x2c7d57f5, 0xbb69e31d, 0x707adc3a, 0xeb385147) = (0x659882c2, 0x4d3e1b63, 0x41ef76fd, 0x2c6b7480)"
    by (simp add: md5_step_masked md5_K_def md5_s_def rotl_def)
  show ?thesis
    unfolding md5_block_tuple M upt_0_64 fold_append comp_apply F1 F2 F3 F4 by simp
qed

lemma md5_zip:
  "md5 [1, 5, 7] = [0xc3, 0xa5, 0xdd, 0xcc, 0xec, 0xc6, 0x0b, 0x3d, 0xfb, 0x53, 0xaa, 0xda, 0xf6, 0xc8, 0x9d, 0x3c]"
proof -
  have R: "replicate 52 (0 :: 8 word) = [0, 0, 0, 0, 0, 0, 0, 0, 0, 0, 0, 0, 0, 0, 0, 0, 0, 0, 0, 0, 0, 0, 0, 0, 0, 0, 0, 0, 0, 0, 0, 0, 0, 0, 0, 0, 0, 0, 0, 0, 0, 0, 0, 0, 0, 0, 0, 0, 0, 0, 0, 0]"
    by (simp add: numeral_eq_Suc)
  have P: "md5_pad [1, 5, 7] =
     [0x01, 0x05, 0x07, 0x80, 0x00, 0x00, 0x00, 0x00, 0x00, 0x00, 0x00, 0x00, 0x00, 0x00, 0x00, 0x00,
      0x00, 0x00, 0x00, 0x00, 0x00, 0x00, 0x00, 0x00, 0x00, 0x00, 0x00, 0x00, 0x00, 0x00, 0x00, 0x00,
      0x00, 0x00, 0x00, 0x00, 0x00, 0x00, 0x00, 0x00, 0x00, 0x00, 0x00, 0x00, 0x00, 0x00, 0x00, 0x00,
      0x00, 0x00, 0x00, 0x00, 0x00, 0x00, 0x00, 0x00, 0x18, 0x00, 0x00, 0x00, 0x00, 0x00, 0x00, 0x00]"
    by (simp add: md5_pad_def le_bytes_def upt_0_8 R)
  have C: "chunks_of 64 (md5_pad [1, 5, 7]) =
     [[0x01, 0x05, 0x07, 0x80, 0x00, 0x00, 0x00, 0x00, 0x00, 0x00, 0x00, 0x00, 0x00, 0x00, 0x00, 0x00,
       0x00, 0x00, 0x00, 0x00, 0x00, 0x00, 0x00, 0x00, 0x00, 0x00, 0x00, 0x00, 0x00, 0x00, 0x00, 0x00,
       0x00, 0x00, 0x00, 0x00, 0x00, 0x00, 0x00, 0x00, 0x00, 0x00, 0x00, 0x00, 0x00, 0x00, 0x00, 0x00,
       0x00, 0x00, 0x00, 0x00, 0x00, 0x00, 0x00, 0x00, 0x18, 0x00, 0x00, 0x00, 0x00, 0x00, 0x00, 0x00]]"
    unfolding P by (simp add: chunks_of_Cons chunks_of_Nil)
  show ?thesis
    unfolding md5_def C md5_init_def
    by (simp add: md5_block_zip1 le_bytes_def upt_0_4)
qed

subsection \<open>Pixel values\<close>

text \<open>
  C1.  For two files that both decode (to well-formed arrays), \<open>verify_pixel_values\<close>
  returns false when the shapes differ, and when the shapes are equal it returns true
  exactly when every element of the original equals the element of the compressed array
  at the same position; the comparison has no tolerance.
\<close>

theorem verify_pixel_values_exact:
  assumes "imread lib fs original_path = Inr a"
    and "imread lib fs compressed_path = Inr b"
    and "wf_array a" and "wf_array b"
  shows "(shape a \<noteq> shape b \<longrightarrow>
            verify_pixel_values lib fs original_path compressed_path = Inr False)
       \<and> (shape a = shape b \<longrightarrow>
            verify_pixel_values lib fs original_path compressed_path
              = Inr (\<forall>i < length (data a). data a ! i = data b ! i))"
proof -
  have "shape a = shape b \<Longrightarrow> length (data a) = length (data b)"
    using assms(3,4) by (simp add: wf_array_def)
  then have "shape a = shape b \<Longrightarrow>
      (data a = data b) = (\<forall>i < length (data a). data a ! i = data b ! i)"
    by (auto simp: list_eq_iff_nth_eq)
  then show ?thesis
    using assms(1,2) by (simp add: verify_pixel_values_def array_equal_def)
qed

theorem verify_pixel_values_exact_witness:
  "verify_pixel_values (sample_lib [])
     (sample_fs [(''a.tif'', [0, 5, 7]), (''b.tif'', [1, 5, 7]), (''c.tif'', [1, 5, 8])])
     ''a.tif'' ''b.tif'' = Inr True"
proof -
  let ?fs = "sample_fs [(''a.tif'', [0, 5, 7]), (''b.tif'', [1, 5, 7]), (''c.tif'', [1, 5, 8])]"
  let ?a = "\<lparr>shape = [2], data = [5, 7]\<rparr>"
  have 1: "imread (sample_lib []) ?fs ''a.tif'' = Inr ?a"
    by (simp add: imread_def read_bytes_def sample_decode_array_def)
  have 2: "imread (sample_lib []) ?fs ''b.tif'' = Inr ?a"
    by (simp add: imread_def read_bytes_def sample_decode_array_def)
  have 3: "wf_array ?a"
    by (simp add: wf_array_def)
  show ?thesis
    using verify_pixel_values_exact [OF 1 2 3 3] by simp
qed

subsection \<open>File hashes\<close>

lemma hashed_chunks:
  "0 < n \<Longrightarrow> fold (\<lambda>chunk hashed. hashed @ chunk) (chunks_of n xs) acc = acc @ xs"
proof (induction n xs arbitrary: acc rule: chunks_of.induct)
  case (1 n xs)
  show ?case
  proof (cases "xs = []")
    case True
    then show ?thesis by (simp add: chunks_of.simps)
  next
    case False
    with 1 show ?thesis
      by (subst chunks_of.simps) simp
  qed
qed

lemma get_file_hash_Some:
  "files fs p = Some content \<Longrightarrow> get_file_hash fs p = Inr (hexdigest (md5 content))"
  by (simp add: get_file_hash_def read_bytes_def hashed_chunks)

lemma get_file_hash_None:
  "files fs p = None \<Longrightarrow> get_file_hash fs p = Inl (file_not_found p)"
  by (simp add: get_file_hash_def read_bytes_def)

lemma hex_digit_inj:
  assumes "m < 16" "n < 16" "hex_digit m = hex_digit n"
  shows "m = n"
proof -
  have "distinct ''0123456789abcdef''" by simp
  moreover have "length ''0123456789abcdef'' = 16" by simp
  ultimately show ?thesis
    using assms unfolding hex_digit_def by (metis nth_eq_iff_index_eq)
qed

lemma hex_byte_inj:
  fixes b c :: "8 word"
  assumes "hex_digit (unat b div 16) = hex_digit (unat c div 16)"
    and "hex_digit (unat b mod 16) = hex_digit (unat c mod 16)"
  shows "b = c"
proof -
  have "unat b < 256" "unat c < 256"
    using unsigned_less [of b] unsigned_less [of c] by simp_all
  then have "unat b div 16 < 16" "unat c div 16 < 16" by simp_all
  then have d: "unat b div 16 = unat c div 16"
    using assms(1) hex_digit_inj by blast
  have m: "unat b mod 16 = unat c mod 16"
    using assms(2) hex_digit_inj [of "unat b mod 16" "unat c mod 16"] by simp
  have "unat b = unat c"
    using d m by (metis div_mult_mod_eq)
  then show ?thesis by (rule word_unat_eq_iff [THEN iffD2])
qed

lemma hexdigest_inj: "hexdigest d1 = hexdigest d2 \<longleftrightarrow> d1 = d2"
proof (induction d1 arbitrary: d2)
  case Nil
  then show ?case by (cases d2) (simp_all add: hexdigest_def)
next
  case (Cons b d1)
  show ?case
  proof (cases d2)
    case Nil
    then show ?thesis by (simp add: hexdigest_def)
  next
    case (Cons c d2')
    have "hexdigest (b # d1) = hexdigest (c # d2') \<longleftrightarrow>
          hex_digit (unat b div 16) = hex_digit (unat c div 16)
          \<and> hex_digit (unat b mod 16) = hex_digit (unat c mod 16)
          \<and> hexdigest d1 = hexdigest d2'"
      by (simp add: hexdigest_def)
    also have "\<dots> \<longleftrightarrow> b = c \<and> d1 = d2'"
      using Cons.IH [of d2'] hex_byte_inj [of b c] by auto
    finally show ?thesis using Cons by simp
  qed
qed

text \<open>
  C6, as the code has it.  For two existing files, \<open>verify_file_hashes\<close> returns true
  exactly when the MD5 digests of their contents differ.  So it returns false for the
  same file and for byte-identical files, and it returns true only for files whose bytes
  differ.
\<close>

theorem verify_file_hashes_md5:
  assumes "files fs original_path = Some a"
    and "files fs compressed_path = Some b"
  shows "verify_file_hashes fs original_path compressed_path = Inr (md5 a \<noteq> md5 b)
       \<and> (a = b \<longrightarrow> verify_file_hashes fs original_path compressed_path = Inr False)
       \<and> (verify_file_hashes fs original_path compressed_path = Inr True \<longrightarrow> a \<noteq> b)"
  using assms by (auto simp: verify_file_hashes_def get_file_hash_Some hexdigest_inj)

theorem verify_file_hashes_md5_witness:
  "verify_file_hashes (sample_fs [(''a.tif'', [0, 5, 7]), (''b.tif'', [1, 5, 7])])
     ''a.tif'' ''b.tif'' = Inr True
   \<and> verify_file_hashes (sample_fs [(''a.tif'', [0, 5, 7]), (''b.tif'', [1, 5, 7])])
     ''a.tif'' ''a.tif'' = Inr False"
proof -
  let ?fs = "sample_fs [(''a.tif'', [0, 5, 7]), (''b.tif'', [1, 5, 7])]"
  have a: "files ?fs ''a.tif'' = Some [0, 5, 7]" by simp
  have b: "files ?fs ''b.tif'' = Some [1, 5, 7]" by simp
  show ?thesis
    using verify_file_hashes_md5 [OF a b] verify_file_hashes_md5 [OF a a]
    by (simp add: md5_original md5_zip)
qed

text \<open>
  C6, as stated, fails: the two colliding messages differ, and the check on two files
  holding them returns false.
\<close>

theorem verify_file_hashes_collision:
  "collision_a \<noteq> collision_b
   \<and> verify_file_hashes (sample_fs [(''a.tif'', collision_a), (''b.tif'', collision_b)])
        ''a.tif'' ''b.tif'' = Inr False"
proof -
  have "collision_a \<noteq> collision_b"
    by (simp add: collision_a_def collision_b_def)
  moreover have "verify_file_hashes (sample_fs [(''a.tif'', collision_a), (''b.tif'', collision_b)])
        ''a.tif'' ''b.tif'' = Inr False"
    by (simp add: verify_file_hashes_def get_file_hash_Some md5_collision_a md5_collision_b)
  ultimately show ?thesis by simp
qed

subsection \<open>Metadata\<close>

text \<open>
  C5.  When the metadata of both files can be read, \<open>verify_metadata\<close> returns true if
  both files lack metadata, false if exactly one lacks it, and when both have metadata
  it returns true exactly when each of the fields \<open>frames\<close>, \<open>slices\<close>, \<open>channels\<close>
  that is present in the original's metadata has the same value in the compressed
  file's metadata; fields absent from the original's metadata are skipped.
\<close>

theorem verify_metadata_cases:
  assumes "imagej_metadata lib fs original_path = Inr om"
    and "imagej_metadata lib fs compressed_path = Inr cm"
  shows "(om = None \<and> cm = None \<longrightarrow>
            verify_metadata lib fs original_path compressed_path = Inr True)
       \<and> ((om = None) \<noteq> (cm = None) \<longrightarrow>
            verify_metadata lib fs original_path compressed_path = Inr False)
       \<and> (\<forall>m1 m2. om = Some m1 \<and> cm = Some m2 \<longrightarrow>
            verify_metadata lib fs original_path compressed_path
              = Inr (\<forall>field \<in> {''frames'', ''slices'', ''channels''}.
                       \<forall>v. map_of m1 field = Some v \<longrightarrow> map_of m2 field = Some v))"
  using assms
  by (cases om; cases cm) (auto simp: verify_metadata_def crucial_fields_def)

theorem verify_metadata_cases_witness:
  "verify_metadata ((sample_lib []) \<lparr>decode_imagej := sample_tagged_metadata\<rparr>)
     (sample_fs [(''a.tif'', [2, 5]), (''b.tif'', [2]), (''c.tif'', [3]), (''d.tif'', [0])])
     ''a.tif'' ''b.tif'' = Inr True"
proof -
  let ?lib = "(sample_lib []) \<lparr>decode_imagej := sample_tagged_metadata\<rparr>"
  let ?fs = "sample_fs [(''a.tif'', [2, 5]), (''b.tif'', [2]), (''c.tif'', [3]), (''d.tif'', [0])]"
  let ?m = "[(''frames'', 2), (''unit'', 1)] :: metadata"
  have a: "imagej_metadata ?lib ?fs ''a.tif'' = Inr (Some ?m)"
    by (simp add: imagej_metadata_def read_bytes_def sample_tagged_metadata_def sample_lib_def)
  have b: "imagej_metadata ?lib ?fs ''b.tif'' = Inr (Some ?m)"
    by (simp add: imagej_metadata_def read_bytes_def sample_tagged_metadata_def sample_lib_def)
  show ?thesis
    using verify_metadata_cases [OF a b] by simp
qed

subsection \<open>Statistics\<close>

lemma np_min_Min: "data a \<noteq> [] \<Longrightarrow> np_min a = Inr (Min (set (data a)))"
  by (cases "data a") (simp_all add: np_min_def Min.set_eq_fold [symmetric])

lemma np_max_Max: "data a \<noteq> [] \<Longrightarrow> np_max a = Inr (Max (set (data a)))"
  by (cases "data a") (simp_all add: np_max_def Max.set_eq_fold [symmetric])

text \<open>
  C7.  For two files that decode to arrays with at least one element:
  if the minimum, the maximum, the mean and the standard deviation of the two arrays are
  identical, \<open>verify_statistics\<close> returns true, whatever the order of the elements; in
  particular it returns true when one array is a permutation of the other and numpy
  computes the same mean and standard deviation for both.  If the means differ (as
  after a change of one pixel that shifts the mean), it returns false.
\<close>

theorem verify_statistics_match:
  assumes "imread lib fs original_path = Inr a"
    and "imread lib fs compressed_path = Inr b"
    and "data a \<noteq> []" and "data b \<noteq> []"
  shows "(np_min a = np_min b \<and> np_max a = np_max b \<and> np_mean lib a = np_mean lib b
            \<and> np_std lib a = np_std lib b \<longrightarrow>
            verify_statistics lib fs original_path compressed_path = Inr True)
       \<and> (mset (data b) = mset (data a) \<and> np_mean lib a = np_mean lib b
            \<and> np_std lib a = np_std lib b \<longrightarrow>
            verify_statistics lib fs original_path compressed_path = Inr True)
       \<and> (np_mean lib a \<noteq> np_mean lib b \<longrightarrow>
            verify_statistics lib fs original_path compressed_path = Inr False)"
proof -
  have v: "verify_statistics lib fs original_path compressed_path
      = Inr (Min (set (data a)) = Min (set (data b)) \<and> Max (set (data a)) = Max (set (data b))
             \<and> np_mean lib a = np_mean lib b \<and> np_std lib a = np_std lib b)"
    using assms by (simp add: verify_statistics_def np_min_Min np_max_Max)
  have p: "mset (data b) = mset (data a) \<Longrightarrow> set (data a) = set (data b)"
    by (metis set_mset_mset)
  show ?thesis
    using assms(3,4) p by (auto simp: v np_min_Min np_max_Max)
qed

theorem verify_statistics_match_witness:
  "verify_statistics (sample_lib [])
     (sample_fs [(''a.tif'', [0, 1, 2, 3]), (''b.tif'', [1, 3, 1, 2]), (''c.tif'', [1, 1, 2, 6])])
     ''a.tif'' ''b.tif'' = Inr True
   \<and> verify_statistics (sample_lib [])
     (sample_fs [(''a.tif'', [0, 1, 2, 3]), (''b.tif'', [1, 3, 1, 2]), (''c.tif'', [1, 1, 2, 6])])
     ''a.tif'' ''c.tif'' = Inr False"
proof -
  let ?fs = "sample_fs [(''a.tif'', [0, 1, 2, 3]), (''b.tif'', [1, 3, 1, 2]), (''c.tif'', [1, 1, 2, 6])]"
  let ?a = "\<lparr>shape = [3], data = [1, 2, 3]\<rparr>"
  let ?b = "\<lparr>shape = [3], data = [3, 1, 2]\<rparr>"
  let ?c = "\<lparr>shape = [3], data = [1, 2, 6]\<rparr>"
  have a: "imread (sample_lib []) ?fs ''a.tif'' = Inr ?a"
    by (simp add: imread_def read_bytes_def sample_decode_array_def)
  have b: "imread (sample_lib []) ?fs ''b.tif'' = Inr ?b"
    by (simp add: imread_def read_bytes_def sample_decode_array_def)
  have c: "imread (sample_lib []) ?fs ''c.tif'' = Inr ?c"
    by (simp add: imread_def read_bytes_def sample_decode_array_def)
  have ab: "mset (data ?b) = mset (data ?a)
      \<and> np_mean (sample_lib []) ?a = np_mean (sample_lib []) ?b
      \<and> np_std (sample_lib []) ?a = np_std (sample_lib []) ?b"
    by (simp add: sample_mean_def sample_std_def)
  have ac: "np_mean (sample_lib []) ?a \<noteq> np_mean (sample_lib []) ?c"
    by (simp add: sample_mean_def)
  show ?thesis
    using verify_statistics_match [OF a b] verify_statistics_match [OF a c] ab ac
    by simp
qed

subsection \<open>Managing the two files\<close>

text \<open>
  C10.  \<open>manage_files\<close> never lets a deletion error escape: when removing the chosen
  file (the original after a successful verification, the compressed file otherwise)
  raises, the error is logged in the results area, nothing else changes, and the
  function returns the original path, also when \<open>compression_successful\<close> is true.
\<close>

theorem manage_files_delete_error:
  assumes "os_remove (disk s)
             (if compression_successful then original_path else compressed_path) = Inl e"
  shows "manage_files s original_path compressed_path compression_successful
           = (original_path, add_result s (''Error managing files: '' @ err_msg e @ nl))"
  using assms by (simp add: manage_files_def split: if_splits)

theorem manage_files_delete_error_witness:
  "manage_files sample_locked_gui ''/d/a.tif'' ''/d/a_compressed_zip.tif'' True
     = (''/d/a.tif'',
        add_result sample_locked_gui
          (''Error managing files: [Errno 13] Permission denied: '' @ quoted ''/d/a.tif'' @ nl))"
proof -
  have "os_remove (disk sample_locked_gui)
          (if True then ''/d/a.tif'' else ''/d/a_compressed_zip.tif'')
        = Inl (PyErr ''PermissionError''
                (''[Errno 13] Permission denied: '' @ quoted ''/d/a.tif''))"
    by (simp add: sample_locked_gui_def os_remove_def)
  from manage_files_delete_error [OF this] show ?thesis by simp
qed

subsection \<open>Errors inside a check\<close>

text \<open>
  C8, as the code has it.  In every check, the first read or decode error ends the check
  with a raised error and no boolean result.  \<open>verify_pixel_values\<close> raises a new
  exception whose message is \<open>Pixel comparison failed:\<close> followed by the message of the
  error; \<open>verify_statistics\<close>, \<open>verify_dimensions\<close>, \<open>verify_metadata\<close> and
  \<open>verify_file_hashes\<close> raise the error of the library or of the operating system
  unchanged.
\<close>

theorem checks_abort_on_read_error:
  shows "(imread lib fs original_path = Inl e \<or>
          (\<exists>a. imread lib fs original_path = Inr a) \<and> imread lib fs compressed_path = Inl e \<longrightarrow>
            verify_pixel_values lib fs original_path compressed_path
              = Inl (PyErr ''Exception'' (''Pixel comparison failed: '' @ err_msg e))
            \<and> verify_statistics lib fs original_path compressed_path = Inl e)
       \<and> (series0_shape lib fs original_path = Inl e \<or>
          (\<exists>s. series0_shape lib fs original_path = Inr s)
            \<and> series0_shape lib fs compressed_path = Inl e \<longrightarrow>
            verify_dimensions lib fs original_path compressed_path = Inl e)
       \<and> (imagej_metadata lib fs original_path = Inl e \<or>
          (\<exists>m. imagej_metadata lib fs original_path = Inr m)
            \<and> imagej_metadata lib fs compressed_path = Inl e \<longrightarrow>
            verify_metadata lib fs original_path compressed_path = Inl e)
       \<and> (get_file_hash fs original_path = Inl e \<or>
          (\<exists>h. get_file_hash fs original_path = Inr h)
            \<and> get_file_hash fs compressed_path = Inl e \<longrightarrow>
            verify_file_hashes fs original_path compressed_path = Inl e)"
  by (auto simp: verify_pixel_values_def verify_statistics_def verify_dimensions_def
        verify_metadata_def verify_file_hashes_def)

theorem checks_abort_on_read_error_witness:
  "verify_pixel_values (sample_lib []) (sample_fs [(''a.tif'', [0, 5, 7]), (''b.tif'', [])])
     ''a.tif'' ''b.tif''
     = Inl (PyErr ''Exception'' (''Pixel comparison failed: '' @ err_msg sample_error))
   \<and> verify_statistics (sample_lib []) (sample_fs [(''a.tif'', [0, 5, 7]), (''b.tif'', [])])
     ''a.tif'' ''b.tif'' = Inl sample_error
   \<and> verify_dimensions (sample_lib []) (sample_fs [(''a.tif'', [0, 5, 7]), (''b.tif'', [])])
     ''a.tif'' ''b.tif'' = Inl sample_error
   \<and> verify_metadata (sample_lib []) (sample_fs [(''a.tif'', [0, 5, 7]), (''b.tif'', [])])
     ''a.tif'' ''b.tif'' = Inl sample_error
   \<and> verify_file_hashes (sample_fs [(''a.tif'', [0, 5, 7]), (''b.tif'', [])])
     ''a.tif'' ''c.tif'' = Inl (file_not_found ''c.tif'')"
proof -
  let ?fs = "sample_fs [(''a.tif'', [0, 5, 7]), (''b.tif'', [])]"
  let ?lib = "sample_lib [] :: real library"
  have 1: "(\<exists>a. imread ?lib ?fs ''a.tif'' = Inr a) \<and> imread ?lib ?fs ''b.tif'' = Inl sample_error"
    by (simp add: imread_def read_bytes_def sample_decode_array_def)
  have 2: "(\<exists>s. series0_shape ?lib ?fs ''a.tif'' = Inr s)
      \<and> series0_shape ?lib ?fs ''b.tif'' = Inl sample_error"
    by (simp add: series0_shape_def read_bytes_def sample_decode_series_def)
  have 3: "(\<exists>m. imagej_metadata ?lib ?fs ''a.tif'' = Inr m)
      \<and> imagej_metadata ?lib ?fs ''b.tif'' = Inl sample_error"
    by (simp add: imagej_metadata_def read_bytes_def sample_decode_imagej_def)
  have 4: "(\<exists>h. get_file_hash ?fs ''a.tif'' = Inr h)
      \<and> get_file_hash ?fs ''c.tif'' = Inl (file_not_found ''c.tif'')"
    by (simp add: get_file_hash_Some get_file_hash_None)
  show ?thesis
    using checks_abort_on_read_error [of ?lib ?fs "''a.tif''" sample_error "''b.tif''"]
      checks_abort_on_read_error [of ?lib ?fs "''a.tif''" "file_not_found ''c.tif''" "''c.tif''"]
      1 2 3 4
    by blast
qed

text \<open>
  C8, as stated, fails: on a missing original \<open>verify_statistics\<close> raises the
  \<open>FileNotFoundError\<close> of \<open>open\<close>, and on a file that is not a TIFF
  \<open>verify_dimensions\<close> raises the error of the codec; neither is wrapped.
\<close>

theorem raw_error_counterexample:
  "verify_statistics (sample_lib []) (sample_fs [(''b.tif'', [1, 5, 7])]) ''a.tif'' ''b.tif''
     = Inl (PyErr ''FileNotFoundError''
             (''[Errno 2] No such file or directory: '' @ quoted ''a.tif''))
   \<and> verify_dimensions (sample_lib []) (sample_fs [(''a.tif'', []), (''b.tif'', [1, 5, 7])])
       ''a.tif'' ''b.tif''
     = Inl (PyErr ''TiffFileError'' ''not a TIFF file'')"
  by (simp add: verify_statistics_def verify_dimensions_def imread_def series0_shape_def
        read_bytes_def file_not_found_def sample_decode_series_def sample_error_def)

subsection \<open>An unchanged file\<close>

lemma verify_file_hashes_same:
  assumes "files fs original_path = Some bs" and "files fs compressed_path = Some bs"
  shows "verify_file_hashes fs original_path compressed_path = Inr False"
  using assms by (simp add: verify_file_hashes_def get_file_hash_Some)

lemma verify_all_hash:
  "verify_all lib fs p q = Inr results \<Longrightarrow> verify_file_hashes fs p q = Inr h \<Longrightarrow>
   (''file_hash_different'', h) \<in> set results"
  by (auto simp: verify_all_def bind_def split: sum.splits)

lemma verify_all_same:
  assumes "files fs original_path = Some bs" and "files fs compressed_path = Some bs"
    and "decode_array lib bs = Inr a" and "data a \<noteq> []"
    and "decode_series lib bs = Inr (sh # ss)"
    and "decode_imagej lib bs = Inr md"
  shows "verify_all lib fs original_path compressed_path
           = Inr [(''pixel_values_match'', True), (''file_hash_different'', False),
                  (''dimensions_match'', True), (''metadata_matches'', True),
                  (''statistical_match'', True)]"
proof -
  have px: "verify_pixel_values lib fs original_path compressed_path = Inr True"
    using assms by (simp add: verify_pixel_values_def imread_Some array_equal_def)
  have hs: "verify_file_hashes fs original_path compressed_path = Inr False"
    using assms(1,2) by (rule verify_file_hashes_same)
  have dm: "verify_dimensions lib fs original_path compressed_path = Inr True"
    using assms by (simp add: verify_dimensions_def series0_shape_def read_bytes_def)
  have mt: "verify_metadata lib fs original_path compressed_path = Inr True"
    using assms
    by (cases md) (simp_all add: verify_metadata_def imagej_metadata_def read_bytes_def list_all_iff)
  have st: "verify_statistics lib fs original_path compressed_path = Inr True"
    using assms by (simp add: verify_statistics_def imread_Some np_min_Min np_max_Max)
  show ?thesis
    by (simp add: verify_all_def px hs dm mt st)
qed

text \<open>
  C9.  For two byte-identical files (in particular the same path given twice) the check
  of the hashes returns false and \<open>check_compression\<close> never reports success.  When the
  file decodes (an array with at least one element, a first series, readable
  metadata), the four content checks return true, \<open>verify_all\<close> returns the report
  with only \<open>file_hash_different\<close> false, and \<open>check_compression\<close> returns false.
\<close>

theorem unchanged_file_never_succeeds:
  assumes "files fs original_path = Some bs" and "files fs compressed_path = Some bs"
  shows "verify_file_hashes fs original_path compressed_path = Inr False
       \<and> check_compression lib fs original_path compressed_path \<noteq> Inr True
       \<and> (\<forall>a sh ss md.
            decode_array lib bs = Inr a \<and> data a \<noteq> []
            \<and> decode_series lib bs = Inr (sh # ss) \<and> decode_imagej lib bs = Inr md \<longrightarrow>
            verify_all lib fs original_path compressed_path
              = Inr [(''pixel_values_match'', True), (''file_hash_different'', False),
                     (''dimensions_match'', True), (''metadata_matches'', True),
                     (''statistical_match'', True)]
            \<and> check_compression lib fs original_path compressed_path = Inr False)"
proof -
  have hs: "verify_file_hashes fs original_path compressed_path = Inr False"
    using assms by (rule verify_file_hashes_same)
  have "check_compression lib fs original_path compressed_path \<noteq> Inr True"
  proof
    assume t: "check_compression lib fs original_path compressed_path = Inr True"
    then obtain results where r: "verify_all lib fs original_path compressed_path = Inr results"
      and a: "list_all snd results"
      by (auto simp: check_compression_def bind_def split: sum.splits)
    from verify_all_hash [OF r hs] a show False
      by (auto simp: list_all_iff)
  qed
  moreover have "verify_all lib fs original_path compressed_path
              = Inr [(''pixel_values_match'', True), (''file_hash_different'', False),
                     (''dimensions_match'', True), (''metadata_matches'', True),
                     (''statistical_match'', True)]
            \<and> check_compression lib fs original_path compressed_path = Inr False"
    if "decode_array lib bs = Inr a" "data a \<noteq> []"
       "decode_series lib bs = Inr (sh # ss)" "decode_imagej lib bs = Inr md"
    for a sh ss md
    using verify_all_same [OF assms that] by (simp add: check_compression_def)
  ultimately show ?thesis
    using hs by blast
qed

theorem unchanged_file_never_succeeds_witness:
  "verify_all (sample_lib []) (sample_fs [(''a.tif'', [0, 5, 7])]) ''a.tif'' ''a.tif''
     = Inr [(''pixel_values_match'', True), (''file_hash_different'', False),
            (''dimensions_match'', True), (''metadata_matches'', True),
            (''statistical_match'', True)]
   \<and> check_compression (sample_lib []) (sample_fs [(''a.tif'', [0, 5, 7])]) ''a.tif'' ''a.tif''
     = Inr False"
proof -
  let ?fs = "sample_fs [(''a.tif'', [0, 5, 7])]"
  have f: "files ?fs ''a.tif'' = Some [0, 5, 7]" by simp
  have d: "decode_array (sample_lib []) [0, 5, 7] = Inr \<lparr>shape = [2], data = [5, 7]\<rparr>
      \<and> data \<lparr>shape = [2], data = [5, 7]\<rparr> \<noteq> []
      \<and> decode_series (sample_lib []) [0, 5, 7] = Inr ([2] # [])
      \<and> decode_imagej (sample_lib []) [0, 5, 7] = Inr None"
    by (simp add: sample_decode_array_def sample_decode_series_def sample_decode_imagej_def)
  show ?thesis
    using unchanged_file_never_succeeds [OF f f, of "sample_lib []"] d by blast
qed

subsection \<open>Names of the compressed files\<close>

lemma basename_takeWhile: "basename p = rev (takeWhile (\<lambda>c. c \<noteq> CHR ''/'') (rev p))"
proof (cases "CHR ''/'' \<in> set p")
  case False
  then have tw: "takeWhile (\<lambda>c. c \<noteq> CHR ''/'') (rev p) = rev p"
    by (intro takeWhile_eq_all_conv [THEN iffD2]) auto
  show ?thesis
    using False by (simp add: basename_def rfind_def tw)
next
  case True
  let ?t = "takeWhile (\<lambda>c. c \<noteq> CHR ''/'') (rev p)"
  let ?d = "dropWhile (\<lambda>c. c \<noteq> CHR ''/'') (rev p)"
  have "rev p = ?t @ ?d" by simp
  then have p: "p = rev ?d @ rev ?t"
    by (metis rev_append rev_rev_ident)
  have l: "length p = length ?d + length ?t"
    by (metis length_append length_rev p)
  have "nat (rfind p CHR ''/'' + 1) = length ?d"
    using True l by (simp add: rfind_def)
  then have "basename p = drop (length (rev ?d)) (rev ?d @ rev ?t)"
    using p by (simp add: basename_def)
  then show ?thesis by simp
qed

lemma basename_no_sep: "CHR ''/'' \<notin> set (basename p)"
  unfolding basename_takeWhile by (auto dest: set_takeWhileD)

lemma basename_suffix:
  assumes "CHR ''/'' \<notin> set y" and "x = [] \<or> last x = CHR ''/''"
  shows "basename (x @ y) = y"
proof -
  have y: "takeWhile (\<lambda>c. c \<noteq> CHR ''/'') (rev y) = rev y"
    using assms(1) by (intro takeWhile_eq_all_conv [THEN iffD2]) auto
  have "takeWhile (\<lambda>c. c \<noteq> CHR ''/'') (rev y @ rev x) = rev y"
  proof (cases "x = []")
    case True
    with y show ?thesis by simp
  next
    case False
    with assms(2) have "hd (rev x) = CHR ''/''" "rev x \<noteq> []"
      by (simp_all add: hd_rev)
    then obtain r where "rev x = CHR ''/'' # r"
      by (cases "rev x") auto
    with y show ?thesis
      by (simp add: takeWhile_tail)
  qed
  then show ?thesis
    by (simp add: basename_takeWhile)
qed

lemma splitext_stem_subset: "set (fst (splitext q)) \<subseteq> set q"
  by (auto simp: splitext_def Let_def dest: in_set_takeD)

lemma path_join_suffix:
  assumes "CHR ''/'' \<notin> set b"
  shows "\<exists>pre. path_join a b = pre @ b \<and> (pre = [] \<or> last pre = CHR ''/'')"
proof -
  have "take 1 b \<noteq> ''/''"
    using assms by (cases b) auto
  then show ?thesis
    by (cases "a = [] \<or> last a = CHR ''/''") (auto simp: path_join_def intro: exI [of _ "a @ ''/''"])
qed

lemma tifffile_method_keys:
  "tifffile_method m = Inr tf \<Longrightarrow> m \<in> {''lzw'', ''zip'', ''packbits''}"
  by (auto simp: tifffile_method_def COMPRESSION_METHODS_def split: option.splits if_splits)

lemma basename_compressed_name_of:
  assumes "CHR ''/'' \<notin> set m"
  shows "basename (compressed_name_of fs file m)
           = fst (splitext (basename file)) @ ''_compressed_'' @ m @ ''.tif''"
proof -
  let ?stem = "fst (splitext (basename file))"
  have s: "CHR ''/'' \<notin> set ?stem"
    using splitext_stem_subset [of "basename file"] basename_no_sep [of "file"] by auto
  obtain pre where pre: "path_join (abspath fs (path_join file pardir)) ?stem = pre @ ?stem"
      "pre = [] \<or> last pre = CHR ''/''"
    using path_join_suffix [OF s] by blast
  have "CHR ''/'' \<notin> set (?stem @ ''_compressed_'' @ m @ ''.tif'')"
    using s assms by simp
  from basename_suffix [OF this pre(2)] pre(1) show ?thesis
    by (simp add: compressed_name_of_def Let_def)
qed

lemma compress_with_tifffile_Inr:
  assumes "compress_with_tifffile lib fs self output_path method = (Inr stats, fs')"
  shows "(\<exists>tf. tifffile_method method = Inr tf)
       \<and> (\<exists>out. fs' = write_bytes fs output_path out)"
  using assms
  by (auto simp: compress_with_tifffile_def bind_def Let_def wrap_exn_def split: sum.splits)

lemmas path_defs = compressed_name_of_def abspath_def normpath_def norm_step_def path_join_def
  pardir_def splitext_def basename_def rfind_def Let_def

lemma name_a_zip: "compressed_name_of fs ''/d/a.tif'' ''zip'' = ''/d/a_compressed_zip.tif''"
  by (simp add: path_defs)

lemma sample_compress_file:
  assumes "files fs p = Some [0, 5, 7]"
  shows "compress_file (sample_lib l) fs p ''zip''
  = (Inr (compressed_name_of fs p ''zip''),
     write_bytes fs (compressed_name_of fs p ''zip'') [1, 5, 7])"
  using assms
  by (simp add: compress_file_def TiffCompressor_def getsize_def
      compress_with_tifffile_def read_bytes_def sample_decode_array_def sample_decode_imagej_def
      tifffile_method_def COMPRESSION_METHODS_def sample_encode_def truthy_def
      get_compression_stats_def write_bytes_def Let_def)

lemma sample_check_compression:
  assumes "files fs p = Some [0, 5, 7]" and "q \<noteq> p"
  shows "check_compression (sample_lib l) (write_bytes fs q [1, 5, 7]) p q = Inr True"
  using assms
  by (simp add: check_compression_def verify_all_def verify_pixel_values_def imread_def
      read_bytes_def write_bytes_def sample_decode_array_def array_equal_def
      verify_file_hashes_def get_file_hash_Some md5_original md5_zip hexdigest_inj
      verify_dimensions_def series0_shape_def sample_decode_series_def
      verify_metadata_def imagej_metadata_def sample_decode_imagej_def
      verify_statistics_def np_min_def np_max_def)

text \<open>
  C4, as the code has it.  \<open>compress_file\<close>, the compressor of the single-file and of the
  folder flow, succeeds only for the methods \<open>lzw\<close>, \<open>zip\<close> and \<open>packbits\<close>, and the
  file it writes (the only one it changes) has the base name
  \<open><name>_compressed_<method>.tif\<close>, where \<open><name>\<close> is the base name of the input
  without its extension.  \<open>batch_compress_directory\<close> names the file it writes for an
  input \<open>compressed_<file name>\<close>, in the output directory.
\<close>

lemma batch_step_name:
  assumes "batch_step lib output_dir method tiff_file (results, printed, fs) = (results', printed', fs')"
    and "results' \<noteq> results"
  shows "(\<exists>stats. results' = results @ [(stats, basename tiff_file)])
       \<and> (\<exists>bs. fs' = write_bytes fs (path_join output_dir (''compressed_'' @ basename tiff_file)) bs)
       \<and> basename (path_join output_dir (''compressed_'' @ basename tiff_file))
           = ''compressed_'' @ basename tiff_file"
proof -
  let ?out = "path_join output_dir (''compressed_'' @ basename tiff_file)"
  have n: "CHR ''/'' \<notin> set (''compressed_'' @ basename tiff_file)"
    using basename_no_sep [of tiff_file] by simp
  from path_join_suffix [OF n, of output_dir] obtain pre where
    "?out = pre @ ''compressed_'' @ basename tiff_file" "pre = [] \<or> last pre = CHR ''/''"
    by auto
  with basename_suffix [OF n, of pre] have b: "basename ?out = ''compressed_'' @ basename tiff_file"
    by simp
  from assms obtain compressor stats where
    c: "compress_with_tifffile lib fs compressor ?out method = (Inr stats, fs')"
    and r: "results' = results @ [(stats, basename tiff_file)]"
    by (auto simp: batch_step_def Let_def split: sum.splits prod.splits)
  from compress_with_tifffile_Inr [OF c] r b
  show ?thesis by blast
qed

theorem compress_file_name:
  assumes "compress_file lib fs file compression_type = (Inr out, fs')"
  shows "compression_type \<in> {''lzw'', ''zip'', ''packbits''}
       \<and> basename out
           = fst (splitext (basename file)) @ ''_compressed_'' @ compression_type @ ''.tif''
       \<and> files fs' out \<noteq> None
       \<and> (\<forall>p. p \<noteq> out \<longrightarrow> files fs' p = files fs p)
       \<and> (\<forall>results printed fs0 results' printed' fs0'.
            batch_step lib output_dir method tiff_file (results, printed, fs0)
              = (results', printed', fs0') \<and> results' \<noteq> results \<longrightarrow>
            (\<exists>bs. fs0' = write_bytes fs0
                     (path_join output_dir (''compressed_'' @ basename tiff_file)) bs)
            \<and> basename (path_join output_dir (''compressed_'' @ basename tiff_file))
                = ''compressed_'' @ basename tiff_file)"
proof -
  from assms obtain compressor stats where
    out: "out = compressed_name_of fs file compression_type"
    and c: "compress_with_tifffile lib fs compressor out compression_type = (Inr stats, fs')"
    by (auto simp: compress_file_def Let_def split: sum.splits prod.splits)
  from compress_with_tifffile_Inr [OF c] obtain tf bs where
    tf: "tifffile_method compression_type = Inr tf" and w: "fs' = write_bytes fs out bs"
    by blast
  have k: "compression_type \<in> {''lzw'', ''zip'', ''packbits''}"
    using tf by (rule tifffile_method_keys)
  then have "CHR ''/'' \<notin> set compression_type" by auto
  from basename_compressed_name_of [OF this] k w
  have single: "compression_type \<in> {''lzw'', ''zip'', ''packbits''}
       \<and> basename out
           = fst (splitext (basename file)) @ ''_compressed_'' @ compression_type @ ''.tif''
       \<and> files fs' out \<noteq> None
       \<and> (\<forall>p. p \<noteq> out \<longrightarrow> files fs' p = files fs p)"
    by (simp add: out write_bytes_def)
  have batch: "(\<exists>bs. fs0' = write_bytes fs0
                     (path_join output_dir (''compressed_'' @ basename tiff_file)) bs)
            \<and> basename (path_join output_dir (''compressed_'' @ basename tiff_file))
                = ''compressed_'' @ basename tiff_file"
    if "batch_step lib output_dir method tiff_file (results, printed, fs0)
              = (results', printed', fs0')" "results' \<noteq> results"
    for results printed fs0 results' printed' fs0'
    using batch_step_name [OF that] by blast
  show ?thesis
    using single batch by blast
qed

theorem compress_file_name_witness:
  "fst (compress_file (sample_lib []) (sample_fs [(''/d/a.tif'', [0, 5, 7])]) ''/d/a.tif'' ''zip'')
     = Inr ''/d/a_compressed_zip.tif''
   \<and> basename ''/d/a_compressed_zip.tif'' = ''a_compressed_zip.tif''
   \<and> fst (splitext (basename ''/d/a.tif'')) = ''a''"
proof -
  let ?fs = "sample_fs [(''/d/a.tif'', [0, 5, 7])]"
  have f: "files ?fs ''/d/a.tif'' = Some [0, 5, 7]" by simp
  have 1: "compress_file (sample_lib []) ?fs ''/d/a.tif'' ''zip''
      = (Inr ''/d/a_compressed_zip.tif'', write_bytes ?fs ''/d/a_compressed_zip.tif'' [1, 5, 7])"
    using sample_compress_file [OF f, of "[]"] by (simp add: name_a_zip)
  have 2: "fst (splitext (basename ''/d/a.tif'')) = ''a''"
    by (simp add: path_defs)
  show ?thesis
    using compress_file_name [OF 1] 1 2 by simp
qed

text \<open>
  C4, as stated, fails on the other compressor: \<open>batch_compress_directory\<close> with the
  method \<open>lzw\<close> writes \<open>/out/compressed_a.tif\<close> for the input \<open>/in/a.tif\<close>, and no file
  \<open>a_compressed_lzw.tif\<close>.
\<close>

theorem batch_name_counterexample:
  "(case batch_compress_directory (sample_lib [''/in/a.tif''])
           (sample_fs [(''/in/a.tif'', [0, 5, 7])]) ''/in'' ''/out'' ''lzw'' of
      (results, printed, fs') \<Rightarrow>
        map snd results = [''a.tif''] \<and> printed = []
        \<and> files fs' ''/out/compressed_a.tif'' = Some [2, 5, 7]
        \<and> files fs' ''/out/a_compressed_lzw.tif'' = None
        \<and> files fs' ''/in/a_compressed_lzw.tif'' = None)"
  by (simp add: batch_compress_directory_def batch_step_def TiffCompressor_def getsize_def
      compress_with_tifffile_def read_bytes_def sample_decode_array_def sample_decode_imagej_def
      tifffile_method_def COMPRESSION_METHODS_def sample_encode_def truthy_def
      get_compression_stats_def write_bytes_def path_join_def basename_def rfind_def Let_def)

subsection \<open>The single-file flow\<close>

lemma rfind_nth:
  assumes "c \<in> set s"
  shows "0 \<le> rfind s c \<and> nat (rfind s c) < length s \<and> s ! nat (rfind s c) = c"
proof -
  define t where "t = takeWhile (\<lambda>x. x \<noteq> c) (rev s)"
  define d where "d = dropWhile (\<lambda>x. x \<noteq> c) (rev s)"
  have td: "rev s = t @ d"
    by (simp add: t_def d_def)
  have dn: "d \<noteq> []"
    using assms by (auto simp: d_def dropWhile_eq_Nil_conv)
  have "hd d = c"
    using hd_dropWhile [of "\<lambda>x. x \<noteq> c" "rev s"] dn by (simp add: d_def)
  with dn obtain r where r: "d = c # r"
    by (cases d) auto
  have "rev (rev s) = rev (t @ c # r)"
    using td r by simp
  then have s: "s = rev r @ c # rev t"
    by simp
  have len: "length s = length r + 1 + length t"
    using arg_cong [OF s, of length] by simp
  have "rfind s c = int (length s) - 1 - int (length t)"
    using assms by (simp add: rfind_def t_def)
  then have rf: "rfind s c = int (length r)"
    using len by simp
  have "(rev r @ c # rev t) ! length (rev r) = c"
    by (rule nth_append_length)
  then have "s ! length r = c"
    using s by simp
  then show ?thesis
    using rf len by simp
qed

lemma splitext_parts:
  assumes "splitext q = (stem, ext)"
  shows "q = stem @ ext \<and> (ext = [] \<or> hd ext = CHR ''.'')"
proof (cases "ext = []")
  case True
  with assms show ?thesis
    by (auto simp: splitext_def Let_def split: if_splits)
next
  case False
  with assms have dot: "rfind q CHR ''/'' < rfind q CHR ''.''"
    and stem: "stem = take (nat (rfind q CHR ''.'')) q"
    and ext: "ext = drop (nat (rfind q CHR ''.'')) q"
    by (auto simp: splitext_def Let_def split: if_splits)
  have "CHR ''.'' \<in> set q"
  proof (rule ccontr)
    assume "CHR ''.'' \<notin> set q"
    then have "rfind q CHR ''.'' = - 1" by (simp add: rfind_def)
    moreover have "- 1 \<le> rfind q CHR ''/''"
      using length_takeWhile_le [of "\<lambda>x. x \<noteq> CHR ''/''" "rev q"] by (simp add: rfind_def)
    ultimately show False using dot by simp
  qed
  from rfind_nth [OF this] have "hd ext = CHR ''.''"
    by (simp add: ext hd_drop_conv_nth)
  then show ?thesis by (simp add: stem ext)
qed

lemma compressed_name_differs:
  assumes "CHR ''/'' \<notin> set m"
  shows "compressed_name_of fs file m \<noteq> file"
proof
  assume eq: "compressed_name_of fs file m = file"
  obtain stem ext where se: "splitext (basename file) = (stem, ext)"
    by (cases "splitext (basename file)")
  from splitext_parts [OF se] have b: "basename file = stem @ ext"
    and e: "ext = [] \<or> hd ext = CHR ''.''" by simp_all
  from basename_compressed_name_of [OF assms, of fs "file"] eq se
  have "stem @ ext = stem @ ''_compressed_'' @ m @ ''.tif''"
    by (simp add: b)
  then have "ext = ''_compressed_'' @ m @ ''.tif''" by simp
  with e show False by auto
qed

lemma compress_file_Inr:
  assumes "compress_file lib fs file compression_type = (Inr out, fs')"
  shows "out = compressed_name_of fs file compression_type
       \<and> (\<exists>tf. tifffile_method compression_type = Inr tf)
       \<and> (\<exists>bs. fs' = write_bytes fs out bs)
       \<and> files fs file \<noteq> None"
proof -
  from assms obtain compressor stats where
    out: "out = compressed_name_of fs file compression_type"
    and t: "TiffCompressor fs file = Inr compressor"
    and c: "compress_with_tifffile lib fs compressor out compression_type = (Inr stats, fs')"
    by (auto simp: compress_file_def Let_def split: sum.splits prod.splits)
  have "files fs file \<noteq> None"
    using t by (auto simp: TiffCompressor_def getsize_def bind_def split: option.splits)
  with compress_with_tifffile_Inr [OF c] out show ?thesis by blast
qed

lemma manage_files_ok:
  assumes "files (disk t) original_path \<noteq> None" and "files (disk t) compressed_path \<noteq> None"
    and "\<not> denied (disk t) (if success then original_path else compressed_path)"
  shows "manage_files t original_path compressed_path success =
     (if success then compressed_path else original_path,
      add_result
        (t\<lparr>disk := (disk t)\<lparr>files :=
              (files (disk t))((if success then original_path else compressed_path) := None)\<rparr>\<rparr>)
        ((if success then ''Original file deleted: '' @ basename original_path
          else ''Compressed file deleted: '' @ basename compressed_path) @ nl))"
  using assms by (auto simp: manage_files_def os_remove_def)

lemma single_file_flow_state:
  assumes "compress_file lib (disk s) file_path (compression_var s) = (Inr compressed_path, fs1)"
    and "check_compression lib fs1 file_path compressed_path = Inr success"
    and "\<not> denied fs1 (if success then file_path else compressed_path)"
  shows "\<exists>s'. compress_single_file lib s file_path = (Inr (), s')
       \<and> fst (manage_files (s\<lparr>disk := fs1\<rparr>) file_path compressed_path success)
           = (if success then compressed_path else file_path)
       \<and> disk s'
           = fs1\<lparr>files := (files fs1)((if success then file_path else compressed_path) := None)\<rparr>
       \<and> files (disk s') (if success then file_path else compressed_path) = None
       \<and> files (disk s') (if success then compressed_path else file_path) \<noteq> None
       \<and> files (disk s') (if success then compressed_path else file_path)
           = files fs1 (if success then compressed_path else file_path)
       \<and> results_text s' = results_text s
           @ ''File: '' @ basename file_path @ nl
           @ ''Compressed to: '' @ basename compressed_path @ nl
           @ ''Verification: '' @ (if success then ''Success'' else ''Failed'') @ nl
           @ (if success then ''Original file deleted: '' @ basename file_path
              else ''Compressed file deleted: '' @ basename compressed_path) @ nl
           @ ''Kept file: '' @ basename (if success then compressed_path else file_path) @ nl
           @ replicate 50 CHR ''-'' @ nl"
proof -
  from compress_file_Inr [OF assms(1)] obtain tf bs where
    out: "compressed_path = compressed_name_of (disk s) file_path (compression_var s)"
    and tf: "tifffile_method (compression_var s) = Inr tf"
    and w: "fs1 = write_bytes (disk s) compressed_path bs"
    and ex: "files (disk s) file_path \<noteq> None"
    by blast
  have "CHR ''/'' \<notin> set (compression_var s)"
    using tifffile_method_keys [OF tf] by auto
  from compressed_name_differs [OF this] have ne: "compressed_path \<noteq> file_path"
    by (simp add: out)
  have f1: "files fs1 file_path \<noteq> None" "files fs1 compressed_path \<noteq> None"
    using ex ne by (simp_all add: w write_bytes_def)
  define s2 where "s2 = s\<lparr>progress_bar := 33, disk := fs1, progress_bar := 66\<rparr>"
  define verdict where "verdict = (if success then ''Success'' else ''Failed'')"
  define s3 where "s3 =
    add_result (add_result (add_result s2 (''File: '' @ basename file_path @ nl))
        (''Compressed to: '' @ basename compressed_path @ nl))
      (''Verification: '' @ verdict @ nl)"
  define gone where "gone = (if success then file_path else compressed_path)"
  define kept where "kept = (if success then compressed_path else file_path)"
  define line where "line =
    (if success then ''Original file deleted: '' @ basename file_path
     else ''Compressed file deleted: '' @ basename compressed_path)"
  define s5 where "s5 =
    add_result
      (add_result
         (add_result (s3\<lparr>disk := fs1\<lparr>files := (files fs1)(gone := None)\<rparr>\<rparr>) (line @ nl))
         (''Kept file: '' @ basename kept @ nl))
      (replicate 50 CHR ''-'' @ nl)"
  have d3: "disk s3 = fs1"
    by (simp add: s3_def s2_def add_result_def)
  have M: "manage_files s3 file_path compressed_path success
      = (kept, add_result (s3\<lparr>disk := fs1\<lparr>files := (files fs1)(gone := None)\<rparr>\<rparr>) (line @ nl))"
    using manage_files_ok [of s3 file_path compressed_path success] f1 assms(3)
    unfolding d3 kept_def gone_def line_def by simp
  have B: "single_file_report s2 file_path compressed_path success = s5"
    unfolding single_file_report_def Let_def verdict_def [symmetric] s3_def [symmetric] M s5_def
    by simp
  have A: "compress_single_file lib s file_path = (Inr (), s5)"
    using assms(1,2) unfolding B [symmetric] by (simp add: compress_single_file_def s2_def Let_def)
  have K: "fst (manage_files (s\<lparr>disk := fs1\<rparr>) file_path compressed_path success) = kept"
    using manage_files_ok [of "s\<lparr>disk := fs1\<rparr>" file_path compressed_path success] f1 assms(3)
    unfolding kept_def by simp
  have D: "disk s5 = fs1\<lparr>files := (files fs1)(gone := None)\<rparr>"
    by (simp add: s5_def add_result_def)
  have T: "results_text s5
      = results_text s
           @ ''File: '' @ basename file_path @ nl
           @ ''Compressed to: '' @ basename compressed_path @ nl
           @ ''Verification: '' @ verdict @ nl
           @ line @ nl
           @ ''Kept file: '' @ basename kept @ nl
           @ replicate 50 CHR ''-'' @ nl"
    by (simp add: s5_def add_result_def s3_def s2_def)
  have gk: "gone \<noteq> kept"
    using ne unfolding gone_def kept_def by auto
  have kx: "files fs1 kept \<noteq> None"
    using f1 unfolding kept_def by auto
  have G: "files (disk s5) gone = None"
    unfolding D by simp
  have KP: "files (disk s5) kept = files fs1 kept"
    unfolding D using gk by simp
  have KX: "files (disk s5) kept \<noteq> None"
    unfolding KP by (rule kx)
  have R: "compress_single_file lib s file_path = (Inr (), s5)
       \<and> fst (manage_files (s\<lparr>disk := fs1\<rparr>) file_path compressed_path success) = kept
       \<and> disk s5 = fs1\<lparr>files := (files fs1)(gone := None)\<rparr>
       \<and> files (disk s5) gone = None
       \<and> files (disk s5) kept \<noteq> None
       \<and> files (disk s5) kept = files fs1 kept
       \<and> results_text s5 = results_text s
           @ ''File: '' @ basename file_path @ nl
           @ ''Compressed to: '' @ basename compressed_path @ nl
           @ ''Verification: '' @ verdict @ nl
           @ line @ nl
           @ ''Kept file: '' @ basename kept @ nl
           @ replicate 50 CHR ''-'' @ nl"
    by (intro conjI A K D G KX KP T)
  show ?thesis
    apply (rule exI [of _ s5])
    apply (insert R)
    apply (unfold gone_def kept_def line_def verdict_def)
    apply assumption
    done
qed

text \<open>
  C2.  In the single-file flow, when the compression has produced the compressed file,
  the verification has returned its verdict and the operating system does not refuse
  the removal: after a successful verification the original is deleted and the
  compressed file is kept, and it is the kept file that \<open>manage_files\<close> returns and
  the log names; after a failed verification the compressed file is deleted and the
  original is kept.
\<close>

theorem single_file_flow:
  assumes "compress_file lib (disk s) file_path (compression_var s) = (Inr compressed_path, fs1)"
    and "check_compression lib fs1 file_path compressed_path = Inr success"
    and "\<not> denied fs1 (if success then file_path else compressed_path)"
  shows "\<exists>s'. compress_single_file lib s file_path = (Inr (), s')
       \<and> fst (manage_files (s\<lparr>disk := fs1\<rparr>) file_path compressed_path success)
           = (if success then compressed_path else file_path)
       \<and> disk s'
           = fs1\<lparr>files := (files fs1)((if success then file_path else compressed_path) := None)\<rparr>
       \<and> files (disk s') (if success then file_path else compressed_path) = None
       \<and> files (disk s') (if success then compressed_path else file_path) \<noteq> None
       \<and> files (disk s') (if success then compressed_path else file_path)
           = files fs1 (if success then compressed_path else file_path)
       \<and> results_text s' = results_text s
           @ ''File: '' @ basename file_path @ nl
           @ ''Compressed to: '' @ basename compressed_path @ nl
           @ ''Verification: '' @ (if success then ''Success'' else ''Failed'') @ nl
           @ (if success then ''Original file deleted: '' @ basename file_path
              else ''Compressed file deleted: '' @ basename compressed_path) @ nl
           @ ''Kept file: '' @ basename (if success then compressed_path else file_path) @ nl
           @ replicate 50 CHR ''-'' @ nl"
  using assms by (rule single_file_flow_state)

theorem single_file_flow_witness:
  "\<exists>s'. compress_single_file (sample_lib []) (sample_gui [(''/d/a.tif'', [0, 5, 7])]) ''/d/a.tif''
           = (Inr (), s')
       \<and> files (disk s') ''/d/a.tif'' = None
       \<and> files (disk s') ''/d/a_compressed_zip.tif'' = Some [1, 5, 7]"
proof -
  let ?s = "sample_gui [(''/d/a.tif'', [0, 5, 7])]"
  let ?fs1 = "write_bytes (disk ?s) ''/d/a_compressed_zip.tif'' [1, 5, 7]"
  have f: "files (disk ?s) ''/d/a.tif'' = Some [0, 5, 7]"
    by (simp add: sample_gui_def)
  have 1: "compress_file (sample_lib []) (disk ?s) ''/d/a.tif'' (compression_var ?s)
      = (Inr ''/d/a_compressed_zip.tif'', ?fs1)"
    using sample_compress_file [OF f, of "[]"] by (simp add: name_a_zip sample_gui_def)
  have 2: "check_compression (sample_lib []) ?fs1 ''/d/a.tif'' ''/d/a_compressed_zip.tif'' = Inr True"
    by (rule sample_check_compression [OF f]) simp
  have 3: "\<not> denied ?fs1 (if True then ''/d/a.tif'' else ''/d/a_compressed_zip.tif'')"
    by (simp add: write_bytes_def sample_gui_def)
  have 4: "files ?fs1 ''/d/a_compressed_zip.tif'' = Some [1, 5, 7]"
    by (simp add: write_bytes_def)
  from single_file_flow [OF 1 2 3] obtain s' where
    "compress_single_file (sample_lib []) ?s ''/d/a.tif'' = (Inr (), s')"
    "files (disk s') ''/d/a.tif'' = None"
    "files (disk s') ''/d/a_compressed_zip.tif'' = files ?fs1 ''/d/a_compressed_zip.tif''"
    by auto
  with 4 show ?thesis by auto
qed

subsection \<open>The folder flow\<close>

lemma loop_append_Inl:
  "compress_folder_loop lib n i before s = (Inl e, s') \<Longrightarrow>
   compress_folder_loop lib n i (before @ rest) s = (Inl e, s')"
proof (induction before arbitrary: i s)
  case Nil
  then show ?case by simp
next
  case (Cons f before)
  then show ?case
    by (auto simp: Let_def split: prod.splits sum.splits)
qed

lemma loop_append_Inr:
  "compress_folder_loop lib n i before s = (Inr u, s') \<Longrightarrow>
   compress_folder_loop lib n i (before @ rest) s
     = compress_folder_loop lib n (i + length before) rest s'"
proof (induction before arbitrary: i s)
  case Nil
  then show ?case by simp
next
  case (Cons f before)
  then show ?case
    by (auto simp: Let_def split: prod.splits sum.splits)
qed

lemma loop_single:
  "compress_folder_loop lib n i [f] s
     = compress_single_file lib
         (s\<lparr>progress_bar := (of_nat i / of_nat n) * 100,
            progress_var := ''Processing file '' @ str_nat i @ '' of '' @ str_nat n\<rparr>) f"
  by (auto simp: Let_def split: prod.splits sum.splits)

lemma compress_reports_error:
  assumes "path_var s \<noteq> []" and "\<not> isfile (disk s) (path_var s)"
    and "compress_folder lib
           (s\<lparr>results_text := [], progress_var := ''Processing...'', progress_bar := 0\<rparr>)
           (path_var s) = (Inl e, s2)"
  shows "compress lib s
     = show_dialog (s2\<lparr>progress_var := ''Error occurred!''\<rparr>)
         ''showerror'' ''Error'' (''An error occurred: '' @ err_msg e)"
  using assms by (simp add: compress_def Let_def)

lemma name_c_zip: "compressed_name_of fs ''/d/c.tif'' ''zip'' = ''/d/c_compressed_zip.tif''"
  by (simp add: path_defs)

lemma sample_single_file_bad:
  assumes "files (disk t) p = Some []"
  shows "compress_single_file (sample_lib l) t p
     = (Inl (PyErr ''Exception'' ''Tifffile compression failed: not a TIFF file''),
        t\<lparr>progress_bar := 33\<rparr>)"
  using assms
  by (simp add: compress_single_file_def compress_file_def TiffCompressor_def getsize_def
      compress_with_tifffile_def read_bytes_def sample_decode_array_def sample_error_def Let_def)

lemma sample_single_file_good:
  assumes "files (disk t) p = Some [0, 5, 7]" and "compression_var t = ''zip''"
    and "\<not> denied (disk t) p"
  shows "\<exists>t'. compress_single_file (sample_lib l) t p = (Inr (), t')
       \<and> disk t' = (write_bytes (disk t) (compressed_name_of (disk t) p ''zip'') [1, 5, 7])
                     \<lparr>files := (files (write_bytes (disk t) (compressed_name_of (disk t) p ''zip'')
                                   [1, 5, 7]))(p := None)\<rparr>"
proof -
  let ?q = "compressed_name_of (disk t) p ''zip''"
  let ?fs1 = "write_bytes (disk t) ?q [1, 5, 7]"
  have ne: "?q \<noteq> p"
    by (rule compressed_name_differs) simp
  have 1: "compress_file (sample_lib l) (disk t) p (compression_var t) = (Inr ?q, ?fs1)"
    using sample_compress_file [OF assms(1), of l] by (simp add: assms(2))
  have 2: "check_compression (sample_lib l) ?fs1 p ?q = Inr True"
    by (rule sample_check_compression [OF assms(1) ne])
  have 3: "\<not> denied ?fs1 (if True then p else ?q)"
    using assms(3) by (simp add: write_bytes_def)
  from single_file_flow_state [OF 1 2 3] show ?thesis by auto
qed

text \<open>
  C3, as the code has it.  The folder flow runs the single-file flow on the files of the
  listing in sequence: when the files processed so far have not raised, the loop goes on
  with the rest from the state they left; when one of them has raised, the loop ends
  with that error in the state the failing file left, whatever files remain.  The
  handler of the button then reports the error in one error dialog.
\<close>

theorem folder_flow_stops_at_first_error:
  "(\<forall>s'. compress_folder_loop lib n i before s = (Inr (), s') \<longrightarrow>
      compress_folder_loop lib n i (before @ rest) s
        = compress_folder_loop lib n (i + length before) rest s')
   \<and> (\<forall>e s'. compress_folder_loop lib n i before s = (Inl e, s') \<longrightarrow>
      compress_folder_loop lib n i (before @ rest) s = (Inl e, s'))
   \<and> compress_folder_loop lib n i [f] s
       = compress_single_file lib
           (s\<lparr>progress_bar := (of_nat i / of_nat n) * 100,
              progress_var := ''Processing file '' @ str_nat i @ '' of '' @ str_nat n\<rparr>) f
   \<and> (path_glob lib (disk s) folder ''**/*.tif*'' \<noteq> [] \<longrightarrow>
      compress_folder lib s folder
        = compress_folder_loop lib (length (path_glob lib (disk s) folder ''**/*.tif*'')) 1
            (path_glob lib (disk s) folder ''**/*.tif*'') s)
   \<and> (\<forall>e s2. path_var s \<noteq> [] \<and> \<not> isfile (disk s) (path_var s)
        \<and> compress_folder lib
             (s\<lparr>results_text := [], progress_var := ''Processing...'', progress_bar := 0\<rparr>)
             (path_var s) = (Inl e, s2) \<longrightarrow>
      compress lib s
        = show_dialog (s2\<lparr>progress_var := ''Error occurred!''\<rparr>)
            ''showerror'' ''Error'' (''An error occurred: '' @ err_msg e))"
  using loop_append_Inr [of lib n i before s "()" _ rest]
    loop_append_Inl [of lib n i before s _ _ rest]
    loop_single [of lib n i f s]
    compress_reports_error [of s lib]
  by (simp add: compress_folder_def Let_def)

theorem folder_flow_stops_at_first_error_witness:
  "fst (compress_folder_loop (sample_lib []) 3 1 [''/d/a.tif'', ''/d/b.tif'', ''/d/c.tif'']
         (sample_gui sample_folder))
     = Inl (PyErr ''Exception'' ''Tifffile compression failed: not a TIFF file'')
   \<and> files (disk (snd (compress_folder_loop (sample_lib []) 3 1
         [''/d/a.tif'', ''/d/b.tif'', ''/d/c.tif''] (sample_gui sample_folder)))) ''/d/a.tif'' = None
   \<and> files (disk (snd (compress_folder_loop (sample_lib []) 3 1
         [''/d/a.tif'', ''/d/b.tif'', ''/d/c.tif''] (sample_gui sample_folder))))
         ''/d/a_compressed_zip.tif'' = Some [1, 5, 7]
   \<and> files (disk (snd (compress_folder_loop (sample_lib []) 3 1
         [''/d/a.tif'', ''/d/b.tif'', ''/d/c.tif''] (sample_gui sample_folder)))) ''/d/c.tif''
       = Some [0, 5, 7]
   \<and> files (disk (snd (compress_folder_loop (sample_lib []) 3 1
         [''/d/a.tif'', ''/d/b.tif'', ''/d/c.tif''] (sample_gui sample_folder))))
         ''/d/c_compressed_zip.tif'' = None"
proof -
  let ?lib = "sample_lib [] :: real library"
  let ?s = "sample_gui sample_folder"
  let ?err = "PyErr ''Exception'' ''Tifffile compression failed: not a TIFF file''"
  let ?s1 = "?s\<lparr>progress_bar := (of_nat 1 / of_nat 3) * 100,
               progress_var := ''Processing file '' @ str_nat 1 @ '' of '' @ str_nat 3\<rparr>"
  have "files (disk ?s1) ''/d/a.tif'' = Some [0, 5, 7]" "compression_var ?s1 = ''zip''"
    "\<not> denied (disk ?s1) ''/d/a.tif''"
    by (simp_all add: sample_gui_def sample_folder_def)
  from sample_single_file_good [OF this, of "[]"] obtain t1 where
    a: "compress_single_file ?lib ?s1 ''/d/a.tif'' = (Inr (), t1)"
    and d1: "disk t1 = (write_bytes (disk ?s1) ''/d/a_compressed_zip.tif'' [1, 5, 7])
                     \<lparr>files := (files (write_bytes (disk ?s1) ''/d/a_compressed_zip.tif''
                                   [1, 5, 7]))(''/d/a.tif'' := None)\<rparr>"
    unfolding name_a_zip by blast
  let ?t1 = "t1\<lparr>progress_bar := (of_nat (1 + length [''/d/a.tif'']) / of_nat 3) * 100,
               progress_var := ''Processing file '' @ str_nat (1 + length [''/d/a.tif''])
                 @ '' of '' @ str_nat 3\<rparr>"
  have "files (disk ?t1) ''/d/b.tif'' = Some []"
    by (simp add: d1 write_bytes_def sample_gui_def sample_folder_def)
  from sample_single_file_bad [OF this, of "[]"]
  have b: "compress_single_file ?lib ?t1 ''/d/b.tif'' = (Inl ?err, ?t1\<lparr>progress_bar := 33\<rparr>)" .
  have L1: "compress_folder_loop ?lib 3 1 [''/d/a.tif''] ?s = (Inr (), t1)"
    using folder_flow_stops_at_first_error
      [where lib = ?lib and n = 3 and i = 1 and f = "''/d/a.tif''" and s = ?s] a
    by simp
  have L2: "compress_folder_loop ?lib 3 (1 + length [''/d/a.tif'']) [''/d/b.tif''] t1
      = (Inl ?err, ?t1\<lparr>progress_bar := 33\<rparr>)"
    using folder_flow_stops_at_first_error
      [where lib = ?lib and n = 3 and i = "1 + length [''/d/a.tif'']" and f = "''/d/b.tif''"
         and s = t1] b
    by simp
  have L3: "compress_folder_loop ?lib 3 (1 + length [''/d/a.tif''])
              ([''/d/b.tif''] @ [''/d/c.tif'']) t1
      = (Inl ?err, ?t1\<lparr>progress_bar := 33\<rparr>)"
    using folder_flow_stops_at_first_error
      [where lib = ?lib and n = 3 and i = "1 + length [''/d/a.tif'']"
         and before = "[''/d/b.tif'']" and rest = "[''/d/c.tif'']" and s = t1] L2
    by blast
  have L4: "compress_folder_loop ?lib 3 1 ([''/d/a.tif''] @ [''/d/b.tif'', ''/d/c.tif'']) ?s
      = compress_folder_loop ?lib 3 (1 + length [''/d/a.tif'']) [''/d/b.tif'', ''/d/c.tif''] t1"
    using folder_flow_stops_at_first_error
      [where lib = ?lib and n = 3 and i = 1
         and before = "[''/d/a.tif'']" and rest = "[''/d/b.tif'', ''/d/c.tif'']" and s = ?s] L1
    by blast
  have "compress_folder_loop ?lib 3 1 [''/d/a.tif'', ''/d/b.tif'', ''/d/c.tif''] ?s
      = (Inl ?err, ?t1\<lparr>progress_bar := 33\<rparr>)"
    using L3 L4 by simp
  then show ?thesis
    by (simp add: d1 write_bytes_def sample_gui_def sample_folder_def)
qed

text \<open>
  C3, as stated, fails: in a folder with a file that is not a TIFF and then an image,
  the error of the first file ends \<open>compress_folder\<close>; the disk and the results area are
  as before, so the image was not processed, although the single-file flow on it alone
  succeeds.
\<close>

theorem folder_abort_counterexample:
  "fst (compress_folder (sample_lib [''/d/b.tif'', ''/d/c.tif''])
         (sample_gui [(''/d/b.tif'', []), (''/d/c.tif'', [0, 5, 7])]) ''/d'')
     = Inl (PyErr ''Exception'' ''Tifffile compression failed: not a TIFF file'')
   \<and> disk (snd (compress_folder (sample_lib [''/d/b.tif'', ''/d/c.tif''])
         (sample_gui [(''/d/b.tif'', []), (''/d/c.tif'', [0, 5, 7])]) ''/d''))
       = sample_fs [(''/d/b.tif'', []), (''/d/c.tif'', [0, 5, 7])]
   \<and> results_text (snd (compress_folder (sample_lib [''/d/b.tif'', ''/d/c.tif''])
         (sample_gui [(''/d/b.tif'', []), (''/d/c.tif'', [0, 5, 7])]) ''/d'')) = []
   \<and> fst (compress_single_file (sample_lib [''/d/b.tif'', ''/d/c.tif''])
         (sample_gui [(''/d/b.tif'', []), (''/d/c.tif'', [0, 5, 7])]) ''/d/c.tif'') = Inr ()"
proof -
  let ?lib = "sample_lib [''/d/b.tif'', ''/d/c.tif''] :: real library"
  let ?s = "sample_gui [(''/d/b.tif'', []), (''/d/c.tif'', [0, 5, 7])]"
  let ?err = "PyErr ''Exception'' ''Tifffile compression failed: not a TIFF file''"
  let ?s1 = "?s\<lparr>progress_bar := (of_nat 1 / of_nat 2) * 100,
               progress_var := ''Processing file '' @ str_nat 1 @ '' of '' @ str_nat 2\<rparr>"
  have "files (disk ?s1) ''/d/b.tif'' = Some []"
    by (simp add: sample_gui_def)
  from sample_single_file_bad [OF this, of "[''/d/b.tif'', ''/d/c.tif'']"]
  have b: "compress_single_file ?lib ?s1 ''/d/b.tif'' = (Inl ?err, ?s1\<lparr>progress_bar := 33\<rparr>)" .
  have L: "compress_folder_loop ?lib 2 1 [''/d/b.tif''] ?s = (Inl ?err, ?s1\<lparr>progress_bar := 33\<rparr>)"
    by (subst loop_single) (rule b)
  have g: "path_glob ?lib (disk ?s) ''/d'' ''**/*.tif*'' = [''/d/b.tif''] @ [''/d/c.tif'']"
    by simp
  have n: "length ([''/d/b.tif''] @ [''/d/c.tif'']) = (2::nat)"
    by simp
  have "compress_folder ?lib ?s ''/d''
      = compress_folder_loop ?lib 2 1 ([''/d/b.tif''] @ [''/d/c.tif'']) ?s"
    unfolding compress_folder_def Let_def g n by simp
  also have "\<dots> = (Inl ?err, ?s1\<lparr>progress_bar := 33\<rparr>)"
    by (rule loop_append_Inl [OF L])
  finally have F: "compress_folder ?lib ?s ''/d'' = (Inl ?err, ?s1\<lparr>progress_bar := 33\<rparr>)" .
  have "files (disk ?s) ''/d/c.tif'' = Some [0, 5, 7]" "compression_var ?s = ''zip''"
    "\<not> denied (disk ?s) ''/d/c.tif''"
    by (simp_all add: sample_gui_def)
  from sample_single_file_good [OF this, of "[''/d/b.tif'', ''/d/c.tif'']"]
  have c: "fst (compress_single_file ?lib ?s ''/d/c.tif'') = Inr ()"
    by auto
  show ?thesis
    unfolding F using c by (simp add: sample_gui_def)
qed

end
